theory Spec2Isabelle
  imports
    Main
    "HOL-Library.Multiset"
    "HOL-Library.AList"
    "HOL-Library.Char_ord"
    "HOL-Library.List_Lexorder"
    "HOL-Library.Sublist"
begin

section \<open>The document assembler of \<^verbatim>\<open>src/app.py\<close>\<close>

text \<open>
  This theory embeds the three functions of \<^verbatim>\<open>src/app.py\<close> that build the Word
  document: \<^verbatim>\<open>add_senior_student_list\<close> (lines 115-138), \<^verbatim>\<open>add_first_year_table\<close>
  (lines 140-180) and \<^verbatim>\<open>generate_student_document\<close> (lines 182-258).

  A student is a Python dict with string keys and string values, modelled as a partial map.
  A Python \<^verbatim>\<open>str\<close> is modelled by its UTF-8 bytes; the lexicographic order on byte
  strings coincides with Python's order on \<^verbatim>\<open>str\<close> (by code point), so \<open>sort\<close> and
  \<open>sort_key\<close> (both stable) model \<^verbatim>\<open>sorted\<close>.

  The document object of python-docx is modelled by what the source writes into it: the
  font of the Normal style and the sequence of body blocks (headings, list paragraphs,
  tables), every run with its text, its bold flag and its colour. The text of a run is the
  string handed to \<^verbatim>\<open>add_run\<close>; how python-docx splits it into XML elements (a tab
  element for a tab, a line break for a line feed or carriage return) is not modelled.
  The final serialisation to a byte stream (lines 255-258) is not modelled: the result of the
  model is the document.
\<close>

subsection \<open>Data\<close>

type_synonym student = "string \<rightharpoonup> string"

text \<open>The exceptions the three functions can raise: \<^verbatim>\<open>KeyError\<close> from a subscript of a
  dict, \<^verbatim>\<open>IndexError\<close> from \<^verbatim>\<open>.runs[0]\<close>, \<^verbatim>\<open>ValueError\<close> from the XML library when
  python-docx stores the text of a run.\<close>

datatype error = KeyError string | IndexError | ValueError

datatype rgb = RGBColor nat nat nat

text \<open>A run of python-docx: \<open>None\<close> in \<open>run_bold\<close> or \<open>run_color\<close> means the attribute
  was never set, so the run inherits it from the style or theme.\<close>

record run =
  run_text :: string
  run_bold :: "bool option"
  run_color :: "rgb option"

datatype tab_alignment = LEFT | CENTER

text \<open>Lengths are in English Metric Units, as python-docx stores them
  (\<^verbatim>\<open>Inches(1)\<close> is 914400, \<^verbatim>\<open>Pt(1)\<close> is 12700).\<close>

record paragraph_format =
  left_indent :: "int option"
  first_line_indent :: "int option"
  tab_stops :: "(int \<times> tab_alignment) list"

text \<open>A table: its style, the autofit flag, the column widths and the rows; a row is a
  list of cells and a cell is the list of runs of its first paragraph.\<close>

record table =
  table_style :: string
  autofit :: bool
  column_widths :: "int list"
  table_rows :: "run list list list"

text \<open>\<open>Heading level runs\<close> is the paragraph \<^verbatim>\<open>doc.add_heading(text, level)\<close> creates
  (style Title for level 0, Heading n otherwise).\<close>

datatype block =
    Heading nat "run list"
  | Paragraph paragraph_format "run list"
  | Table table

record document =
  font_name :: string
  font_size :: int
  body :: "block list"

subsection \<open>Strings\<close>

definition TAB :: char where
  "TAB = CHR 0x09"

text \<open>The separator of line 134 is U+2013 (EN DASH), in UTF-8 the bytes E2 80 93.\<close>

definition en_dash :: string where
  "en_dash = [CHR 0xE2, CHR 0x80, CHR 0x93]"

text \<open>Python's \<^verbatim>\<open>str(i)\<close> and \<^verbatim>\<open>f"{i}"\<close> for a non-negative integer: its decimal digits.\<close>

fun py_str :: "nat \<Rightarrow> string" where
  "py_str n = (if n < 10 then [''0123456789'' ! n]
               else py_str (n div 10) @ [''0123456789'' ! (n mod 10)])"

declare py_str.simps [simp del]

text \<open>
  python-docx stores the text of a run in the XML tree through lxml, which raises
  \<^verbatim>\<open>ValueError\<close> (\<^verbatim>\<open>All strings must be XML compatible\<close>) unless every character is an XML
  character: no control character other than tab, line feed and carriage return, no
  surrogate (in UTF-8 the byte ED followed by a byte from A0 on) and neither of the
  non-characters U+FFFE and U+FFFF (the bytes EF BF BE and EF BF BF).
\<close>

definition xml_char :: "char \<Rightarrow> bool" where
  "xml_char c \<longleftrightarrow> c = CHR 0x09 \<or> c = CHR 0x0A \<or> c = CHR 0x0D \<or> 32 \<le> (of_char c :: nat)"

fun non_character :: "string \<Rightarrow> bool" where
  "non_character (a # b # rest) =
     (a = CHR 0xED \<and> 160 \<le> (of_char b :: nat) \<or>
      a = CHR 0xEF \<and> b = CHR 0xBF \<and>
        (case rest of [] \<Rightarrow> False | c # cs \<Rightarrow> c = CHR 0xBE \<or> c = CHR 0xBF))"
| "non_character cs = False"

fun xml_compatible :: "string \<Rightarrow> bool" where
  "xml_compatible [] = True"
| "xml_compatible (c # cs) = (xml_char c \<and> \<not> non_character (c # cs) \<and> xml_compatible cs)"

declare non_character.simps [simp del] xml_compatible.simps [simp del]

subsection \<open>Runs and headings\<close>

definition black :: rgb where
  "black = RGBColor 0 0 0"

text \<open>The run that \<^verbatim>\<open>p.add_run(t)\<close> followed by \<^verbatim>\<open>.font.color.rgb = RGBColor(0, 0, 0)\<close>
  leaves in the paragraph, and the call itself, which raises when the text is refused.\<close>

definition black_run :: "string \<Rightarrow> run" where
  "black_run t = \<lparr>run_text = t, run_bold = None, run_color = Some black\<rparr>"

definition add_run :: "string \<Rightarrow> error + run" where
  "add_run t = (if xml_compatible t then Inr (black_run t) else Inl ValueError)"

text \<open>
  Every heading of the source is added by
  \<^verbatim>\<open>doc.add_heading(text, level).runs[0].font.color.rgb = RGBColor(0, 0, 0)\<close>.
  In python-docx \<^verbatim>\<open>add_heading\<close> is \<^verbatim>\<open>add_paragraph(text, style)\<close>, which adds a run
  only \<^verbatim>\<open>if text:\<close>; for the empty string the paragraph has no run and
  \<^verbatim>\<open>.runs[0]\<close> raises \<^verbatim>\<open>IndexError\<close>.
\<close>

definition add_heading :: "document \<Rightarrow> string \<Rightarrow> nat \<Rightarrow> error + document" where
  "add_heading doc t level =
     (if t = [] then Inl IndexError
      else
        (case add_run t of
           Inl e \<Rightarrow> Inl e
         | Inr r \<Rightarrow> Inr (doc\<lparr>body := body doc @ [Heading level [r]]\<rparr>)))"

subsection \<open>\<^verbatim>\<open>add_senior_student_list\<close>\<close>

text \<open>Lines 119-128: left indent \<^verbatim>\<open>Inches(0.5)\<close>, first-line indent \<^verbatim>\<open>Inches(-0.25)\<close>,
  tab stops at 0.5 in (left), 3.0 in (centre) and 4.0 in (the default alignment, left).\<close>

definition senior_format :: paragraph_format where
  "senior_format =
     \<lparr>left_indent = Some 457200, first_line_indent = Some (- 228600),
      tab_stops = [(457200, LEFT), (2743200, CENTER), (3657600, LEFT)]\<rparr>"

text \<open>Lines 131-137: the three runs, each read from the student and added in turn.\<close>

fun senior_loop :: "document \<Rightarrow> (nat \<times> student) list \<Rightarrow> error + document" where
  "senior_loop doc [] = Inr doc"
| "senior_loop doc ((i, student) # rest) =
     (case student ''full_name'' of
        None \<Rightarrow> Inl (KeyError ''full_name'')
      | Some full_name \<Rightarrow>
          (case add_run (py_str i @ ''.'' @ [TAB] @ full_name @ [TAB]) of
             Inl e \<Rightarrow> Inl e
           | Inr run1 \<Rightarrow>
               (case add_run en_dash of
                  Inl e \<Rightarrow> Inl e
                | Inr run2 \<Rightarrow>
                    (case student ''registration_number'' of
                       None \<Rightarrow> Inl (KeyError ''registration_number'')
                     | Some registration_number \<Rightarrow>
                         (case add_run (TAB # registration_number) of
                            Inl e \<Rightarrow> Inl e
                          | Inr run3 \<Rightarrow>
                              senior_loop
                                (doc\<lparr>body := body doc @
                                   [Paragraph senior_format [run1, run2, run3]]\<rparr>)
                                rest)))))"

definition add_senior_student_list :: "document \<Rightarrow> student list \<Rightarrow> error + document" where
  "add_senior_student_list doc students = senior_loop doc (List.enumerate 1 students)"

subsection \<open>\<^verbatim>\<open>add_first_year_table\<close>\<close>

text \<open>Lines 159-165: the header cells, bold and black. The labels are literals of
  letters, full stops and spaces, which \<^verbatim>\<open>add_run\<close> never refuses.\<close>

definition headers :: "string list" where
  "headers = [''S.No.'', ''Name'', ''SEC ID'', ''Section'', ''Department'']"

definition header_row :: "run list list" where
  "header_row =
     map (\<lambda>header_text. [\<lparr>run_text = header_text, run_bold = Some True, run_color = Some black\<rparr>])
       headers"

text \<open>Line 168: \<^verbatim>\<open>sorted(students, key=lambda s: s['department'])\<close>. The key is computed
  for every student in input order (the first missing key raises), then the list is sorted
  stably by it.\<close>

fun department_keys :: "student list \<Rightarrow> error + (string \<times> student) list" where
  "department_keys [] = Inr []"
| "department_keys (s # ss) =
     (case s ''department'' of
        None \<Rightarrow> Inl (KeyError ''department'')
      | Some d \<Rightarrow>
          (case department_keys ss of
             Inl e \<Rightarrow> Inl e
           | Inr ks \<Rightarrow> Inr ((d, s) # ks)))"

definition sorted_students :: "student list \<Rightarrow> error + student list" where
  "sorted_students students =
     (case department_keys students of
        Inl e \<Rightarrow> Inl e
      | Inr ks \<Rightarrow> Inr (map snd (sort_key fst ks)))"

text \<open>Lines 178-180: the cells of one row, every cell one black run.\<close>

fun cell_runs :: "string list \<Rightarrow> error + run list list" where
  "cell_runs [] = Inr []"
| "cell_runs (cell_text # rest) =
     (case add_run cell_text of
        Inl e \<Rightarrow> Inl e
      | Inr r \<Rightarrow>
          (case cell_runs rest of
             Inl e \<Rightarrow> Inl e
           | Inr cells \<Rightarrow> Inr ([r] # cells)))"

text \<open>Lines 169-180: one row per student; \<^verbatim>\<open>row_data\<close> is built first (lines 171-177), then
  the cells are filled.\<close>

fun data_rows :: "(nat \<times> student) list \<Rightarrow> error + run list list list" where
  "data_rows [] = Inr []"
| "data_rows ((i, student) # rest) =
     (case student ''full_name'' of
        None \<Rightarrow> Inl (KeyError ''full_name'')
      | Some full_name \<Rightarrow>
          (case student ''registration_number'' of
             None \<Rightarrow> Inl (KeyError ''registration_number'')
           | Some registration_number \<Rightarrow>
               (case student ''department'' of
                  None \<Rightarrow> Inl (KeyError ''department'')
                | Some department \<Rightarrow>
                    (case cell_runs
                            [py_str i, full_name, registration_number,
                             (case student ''section'' of None \<Rightarrow> ''N/A'' | Some sec \<Rightarrow> sec),
                             department] of
                       Inl e \<Rightarrow> Inl e
                     | Inr cells \<Rightarrow>
                         (case data_rows rest of
                            Inl e \<Rightarrow> Inl e
                          | Inr rows \<Rightarrow> Inr (cells # rows))))))"

text \<open>Lines 145-156: the table, style Table Grid, autofit off, the five column widths
  \<^verbatim>\<open>Inches(0.1)\<close>, \<^verbatim>\<open>Inches(2.0)\<close>, \<^verbatim>\<open>Inches(1.0)\<close>, \<^verbatim>\<open>Inches(0.1)\<close>, \<^verbatim>\<open>Inches(1.0)\<close>.\<close>

definition new_table :: "run list list list \<Rightarrow> table" where
  "new_table rows =
     \<lparr>table_style = ''Table Grid'', autofit = False,
      column_widths = [91440, 1828800, 914400, 91440, 914400],
      table_rows = rows\<rparr>"

definition add_first_year_table :: "document \<Rightarrow> student list \<Rightarrow> error + document" where
  "add_first_year_table doc students =
     (if students = [] then Inr doc
      else
        (case sorted_students students of
           Inl e \<Rightarrow> Inl e
         | Inr sorted_list \<Rightarrow>
             (case data_rows (List.enumerate 1 sorted_list) of
                Inl e \<Rightarrow> Inl e
              | Inr rows \<Rightarrow>
                  Inr (doc\<lparr>body := body doc @ [Table (new_table (header_row # rows))]\<rparr>))))"

subsection \<open>\<^verbatim>\<open>generate_student_document\<close>\<close>

text \<open>
  The three grouping loops (lines 195-201, 218-223, 240-245) have one shape: compute the
  key of the student, create the bucket if the key is new, append the student. A Python
  dict keeps its keys in insertion order, so the dict is an association list and
  \<open>AList.update\<close> is the assignment \<^verbatim>\<open>d[k] = v\<close>.
\<close>

definition bucket_append ::
  "(string \<times> student list) list \<Rightarrow> string \<Rightarrow> student \<Rightarrow> (string \<times> student list) list" where
  "bucket_append d k s =
     AList.update k ((case map_of d k of None \<Rightarrow> [] | Some bucket \<Rightarrow> bucket) @ [s]) d"

fun group_students ::
  "(student \<Rightarrow> error + string) \<Rightarrow> (string \<times> student list) list \<Rightarrow> student list
     \<Rightarrow> error + (string \<times> student list) list" where
  "group_students key d [] = Inr d"
| "group_students key d (s # ss) =
     (case key s of
        Inl e \<Rightarrow> Inl e
      | Inr k \<Rightarrow> group_students key (bucket_append d k s) ss)"

text \<open>Line 198: \<^verbatim>\<open>student.get("category", "Uncategorized")\<close>.\<close>

definition category_of :: "student \<Rightarrow> string" where
  "category_of s = (case s ''category'' of None \<Rightarrow> ''Uncategorized'' | Some c \<Rightarrow> c)"

text \<open>Lines 220 and 242: \<^verbatim>\<open>student[k]\<close>, which raises \<^verbatim>\<open>KeyError\<close> on a missing key.\<close>

definition subscript :: "string \<Rightarrow> student \<Rightarrow> error + string" where
  "subscript k s = (case s k of None \<Rightarrow> Inl (KeyError k) | Some v \<Rightarrow> Inr v)"

definition category_order :: "string list" where
  "category_order = [''Hostel'', ''Dayscholar'', ''Uncategorized'']"

definition year_order :: "string list" where
  "year_order = [''Fourth'', ''Third'', ''Second'', ''First'']"

text \<open>Lines 247-252: the loop over the sorted department names.\<close>

fun dept_loop ::
  "document \<Rightarrow> (string \<times> student list) list \<Rightarrow> string list \<Rightarrow> error + document" where
  "dept_loop doc students_by_dept [] = Inr doc"
| "dept_loop doc students_by_dept (dept_name # rest) =
     (case map_of students_by_dept dept_name of
        None \<Rightarrow> Inl (KeyError dept_name)
      | Some dept_student_list \<Rightarrow>
          (case add_heading doc dept_name 3 of
             Inl e \<Rightarrow> Inl e
           | Inr doc1 \<Rightarrow>
               (case add_senior_student_list doc1 dept_student_list of
                  Inl e \<Rightarrow> Inl e
                | Inr doc2 \<Rightarrow> dept_loop doc2 students_by_dept rest)))"

text \<open>Lines 234-252: the body of the year loop below the year heading.\<close>

definition year_content :: "document \<Rightarrow> string \<Rightarrow> student list \<Rightarrow> error + document" where
  "year_content doc year year_student_list =
     (if year = ''First'' then add_first_year_table doc year_student_list
      else
        (case group_students (subscript ''department'') [] year_student_list of
           Inl e \<Rightarrow> Inl e
         | Inr students_by_dept \<Rightarrow>
             dept_loop doc students_by_dept (sort (map fst students_by_dept))))"

text \<open>Lines 226-252: the loop over \<^verbatim>\<open>year_order\<close>; a bucket that is missing or empty is
  skipped.\<close>

fun year_loop ::
  "document \<Rightarrow> (string \<times> student list) list \<Rightarrow> string list \<Rightarrow> error + document" where
  "year_loop doc students_by_year [] = Inr doc"
| "year_loop doc students_by_year (year # rest) =
     (case map_of students_by_year year of
        None \<Rightarrow> year_loop doc students_by_year rest
      | Some year_student_list \<Rightarrow>
          if year_student_list = [] then year_loop doc students_by_year rest
          else
            (case add_heading doc (year @ '' Year'') 2 of
               Inl e \<Rightarrow> Inl e
             | Inr doc1 \<Rightarrow>
                 (case year_content doc1 year year_student_list of
                    Inl e \<Rightarrow> Inl e
                  | Inr doc2 \<Rightarrow> year_loop doc2 students_by_year rest)))"

text \<open>Lines 211-232: the body of the category loop for a non-empty bucket.\<close>

definition category_content :: "document \<Rightarrow> string \<Rightarrow> student list \<Rightarrow> error + document" where
  "category_content doc category_name student_list =
     (case (if category_name = ''Uncategorized'' then Inr doc
            else add_heading doc category_name 1) of
        Inl e \<Rightarrow> Inl e
      | Inr doc1 \<Rightarrow>
          (case group_students (subscript ''year'') [] student_list of
             Inl e \<Rightarrow> Inl e
           | Inr students_by_year \<Rightarrow> year_loop doc1 students_by_year year_order))"

text \<open>Lines 206-252: the loop over \<^verbatim>\<open>category_order\<close>.\<close>

fun category_loop ::
  "document \<Rightarrow> (string \<times> student list) list \<Rightarrow> string list \<Rightarrow> error + document" where
  "category_loop doc categorized_students [] = Inr doc"
| "category_loop doc categorized_students (category_name # rest) =
     (case map_of categorized_students category_name of
        None \<Rightarrow> category_loop doc categorized_students rest
      | Some student_list \<Rightarrow>
          if student_list = [] then category_loop doc categorized_students rest
          else
            (case category_content doc category_name student_list of
               Inl e \<Rightarrow> Inl e
             | Inr doc1 \<Rightarrow> category_loop doc1 categorized_students rest))"

text \<open>Lines 186-189: a new document whose Normal style is Times New Roman, 12 pt.\<close>

definition new_document :: document where
  "new_document = \<lparr>font_name = ''Times New Roman'', font_size = 152400, body = []\<rparr>"

definition generate_student_document :: "student list \<Rightarrow> error + document" where
  "generate_student_document students =
     (case add_heading new_document ''VOLUNTEERS LIST'' 0 of
        Inl e \<Rightarrow> Inl e
      | Inr doc \<Rightarrow>
          (case group_students (\<lambda>s. Inr (category_of s)) [] students of
             Inl e \<Rightarrow> Inl e
           | Inr categorized_students \<Rightarrow>
               category_loop doc categorized_students category_order))"

section \<open>Auxiliary definitions\<close>

text \<open>
  Every function of the source either raises or appends blocks to the document. The
  definitions of this section describe both without state: the first error in execution
  order, and the blocks appended when there is none, written with \<open>filter\<close> in place
  of the dictionaries. The lemmas of the next section prove that the functions of the
  source compute exactly these.
\<close>

definition get_field :: "string \<Rightarrow> student \<Rightarrow> string" where
  "get_field k s = (case s k of None \<Rightarrow> [] | Some v \<Rightarrow> v)"

definition orelse :: "error option \<Rightarrow> error option \<Rightarrow> error option" where
  "orelse a b = (case a of None \<Rightarrow> b | Some e \<Rightarrow> Some e)"

fun first_error :: "('a \<Rightarrow> error option) \<Rightarrow> 'a list \<Rightarrow> error option" where
  "first_error f [] = None"
| "first_error f (x # xs) = orelse (f x) (first_error f xs)"

definition result :: "document \<Rightarrow> error option \<Rightarrow> block list \<Rightarrow> error + document" where
  "result doc err bs =
     (case err of Some e \<Rightarrow> Inl e | None \<Rightarrow> Inr (doc\<lparr>body := body doc @ bs\<rparr>))"

definition missing :: "string \<Rightarrow> student \<Rightarrow> error option" where
  "missing k s = (if s k = None then Some (KeyError k) else None)"

definition plain_char :: "char \<Rightarrow> bool" where
  "plain_char c \<longleftrightarrow> xml_char c \<and> (of_char c :: nat) < 128"

definition invalid :: "string \<Rightarrow> error option" where
  "invalid t = (if xml_compatible t then None else Some ValueError)"

definition heading_error :: "string \<Rightarrow> error option" where
  "heading_error t = (if t = [] then Some IndexError else invalid t)"

definition senior_paragraph :: "nat \<times> student \<Rightarrow> block" where
  "senior_paragraph p =
     Paragraph senior_format
       [black_run (py_str (fst p) @ ''.'' @ [TAB] @ get_field ''full_name'' (snd p) @ [TAB]),
        black_run en_dash,
        black_run (TAB # get_field ''registration_number'' (snd p))]"

definition senior_error :: "student \<Rightarrow> error option" where
  "senior_error s =
     orelse (missing ''full_name'' s)
       (orelse (invalid (get_field ''full_name'' s))
          (orelse (missing ''registration_number'' s)
             (invalid (get_field ''registration_number'' s))))"

definition senior_body :: "student list \<Rightarrow> block list" where
  "senior_body students = map senior_paragraph (List.enumerate 1 students)"

definition section_text :: "student \<Rightarrow> string" where
  "section_text s = (case s ''section'' of None \<Rightarrow> ''N/A'' | Some sec \<Rightarrow> sec)"

definition table_row :: "nat \<times> student \<Rightarrow> run list list" where
  "table_row p =
     map (\<lambda>cell_text. [black_run cell_text])
       [py_str (fst p), get_field ''full_name'' (snd p),
        get_field ''registration_number'' (snd p),
        section_text (snd p),
        get_field ''department'' (snd p)]"

definition row_error :: "student \<Rightarrow> error option" where
  "row_error s =
     orelse (missing ''full_name'' s)
       (orelse (missing ''registration_number'' s)
          (orelse (missing ''department'' s)
             (first_error invalid
                [get_field ''full_name'' s, get_field ''registration_number'' s,
                 section_text s, get_field ''department'' s])))"

definition first_year_sorted :: "student list \<Rightarrow> student list" where
  "first_year_sorted students = sort_key (get_field ''department'') students"

definition first_year_body :: "student list \<Rightarrow> block list" where
  "first_year_body students =
     (if students = [] then []
      else [Table (new_table
              (header_row # map table_row (List.enumerate 1 (first_year_sorted students))))])"

definition first_year_error :: "student list \<Rightarrow> error option" where
  "first_year_error students =
     orelse (first_error (missing ''department'') students)
       (first_error row_error (first_year_sorted students))"

definition grouped ::
  "(student \<Rightarrow> string) \<Rightarrow> (string \<times> student list) list \<Rightarrow> student list
     \<Rightarrow> (string \<times> student list) list" where
  "grouped g d students = fold (\<lambda>s d'. bucket_append d' (g s) s) students d"

definition dept_bucket :: "student list \<Rightarrow> string \<Rightarrow> student list" where
  "dept_bucket students k = filter (\<lambda>s. get_field ''department'' s = k) students"

definition dept_section_body :: "student list \<Rightarrow> string \<Rightarrow> block list" where
  "dept_section_body students k =
     Heading 3 [black_run k] # senior_body (dept_bucket students k)"

definition dept_section_error :: "student list \<Rightarrow> string \<Rightarrow> error option" where
  "dept_section_error students k =
     orelse (heading_error k) (first_error senior_error (dept_bucket students k))"

definition dept_names :: "student list \<Rightarrow> string list" where
  "dept_names students = sort (remdups (map (get_field ''department'') students))"

definition senior_year_body :: "student list \<Rightarrow> block list" where
  "senior_year_body students =
     concat (map (dept_section_body students) (dept_names students))"

definition senior_year_error :: "student list \<Rightarrow> error option" where
  "senior_year_error students =
     orelse (first_error (missing ''department'') students)
       (first_error (dept_section_error students) (dept_names students))"

definition year_content_body :: "string \<Rightarrow> student list \<Rightarrow> block list" where
  "year_content_body year students =
     (if year = ''First'' then first_year_body students else senior_year_body students)"

definition year_content_error :: "string \<Rightarrow> student list \<Rightarrow> error option" where
  "year_content_error year students =
     (if year = ''First'' then first_year_error students else senior_year_error students)"

definition year_bucket :: "student list \<Rightarrow> string \<Rightarrow> student list" where
  "year_bucket students y = filter (\<lambda>s. get_field ''year'' s = y) students"

definition year_section_body :: "student list \<Rightarrow> string \<Rightarrow> block list" where
  "year_section_body students y =
     (if year_bucket students y = [] then []
      else Heading 2 [black_run (y @ '' Year'')]
             # year_content_body y (year_bucket students y))"

definition year_section_error :: "student list \<Rightarrow> string \<Rightarrow> error option" where
  "year_section_error students y =
     (if year_bucket students y = [] then None
      else orelse (heading_error (y @ '' Year''))
             (year_content_error y (year_bucket students y)))"

definition category_bucket :: "student list \<Rightarrow> string \<Rightarrow> student list" where
  "category_bucket students c = filter (\<lambda>s. category_of s = c) students"

definition category_heading :: "string \<Rightarrow> block list" where
  "category_heading c = (if c = ''Uncategorized'' then [] else [Heading 1 [black_run c]])"

definition category_content_body :: "string \<Rightarrow> student list \<Rightarrow> block list" where
  "category_content_body c students =
     category_heading c @ concat (map (year_section_body students) year_order)"

definition category_content_error :: "string \<Rightarrow> student list \<Rightarrow> error option" where
  "category_content_error c students =
     orelse (if c = ''Uncategorized'' then None else heading_error c)
       (orelse (first_error (missing ''year'') students)
          (first_error (year_section_error students) year_order))"

definition category_section_body :: "student list \<Rightarrow> string \<Rightarrow> block list" where
  "category_section_body students c =
     (if category_bucket students c = [] then []
      else category_content_body c (category_bucket students c))"

definition category_section_error :: "student list \<Rightarrow> string \<Rightarrow> error option" where
  "category_section_error students c =
     (if category_bucket students c = [] then None
      else category_content_error c (category_bucket students c))"

definition title_heading :: block where
  "title_heading = Heading 0 [black_run ''VOLUNTEERS LIST'']"

definition document_body :: "student list \<Rightarrow> block list" where
  "document_body students =
     title_heading # concat (map (category_section_body students) category_order)"

definition document_error :: "student list \<Rightarrow> error option" where
  "document_error students = first_error (category_section_error students) category_order"

fun block_runs :: "block \<Rightarrow> run list" where
  "block_runs (Heading level rs) = rs"
| "block_runs (Paragraph fmt rs) = rs"
| "block_runs (Table t) = concat (concat (table_rows t))"

fun is_heading :: "block \<Rightarrow> bool" where
  "is_heading (Heading level rs) = True"
| "is_heading b = False"

definition explicit_black :: "block \<Rightarrow> bool" where
  "explicit_black b \<longleftrightarrow>
     (\<forall>r\<in>set (block_runs b). run_color r = Some (RGBColor 0 0 0)) \<and>
     (is_heading b \<longrightarrow> block_runs b \<noteq> [])"

fun heading_entry :: "block \<Rightarrow> (nat \<times> string) list" where
  "heading_entry (Heading level rs) = [(level, concat (map run_text rs))]"
| "heading_entry b = []"

definition headings :: "block list \<Rightarrow> (nat \<times> string) list" where
  "headings bs = concat (map heading_entry bs)"

definition headings_of_levels :: "nat set \<Rightarrow> block list \<Rightarrow> (nat \<times> string) list" where
  "headings_of_levels L bs = filter (\<lambda>h. fst h \<in> L) (headings bs)"

fun paragraph_registration_number :: "run list \<Rightarrow> string list" where
  "paragraph_registration_number [r1, r2, r3] = [tl (run_text r3)]"
| "paragraph_registration_number rs = []"

fun row_registration_number :: "run list list \<Rightarrow> string" where
  "row_registration_number (c0 # c1 # c2 # cells) = concat (map run_text c2)"
| "row_registration_number cells = []"

fun block_registration_numbers :: "block \<Rightarrow> string list" where
  "block_registration_numbers (Heading level rs) = []"
| "block_registration_numbers (Paragraph fmt rs) = paragraph_registration_number rs"
| "block_registration_numbers (Table t) = map row_registration_number (tl (table_rows t))"

definition rendered_registration_numbers :: "block list \<Rightarrow> string list" where
  "rendered_registration_numbers bs = concat (map block_registration_numbers bs)"

definition departments :: "string list" where
  "departments = [''CSE'', ''IT'', ''ECE'', ''EEE'', ''CIVIL'', ''MECH'', ''AI&DS'', ''AIML'',
     ''EIE'', ''CSBS'', ''M.Tech CSE'', ''Mechanical and Automation'', ''ICE'']"

definition schema_invariants :: "student \<Rightarrow> bool" where
  "schema_invariants s \<longleftrightarrow>
     s ''full_name'' \<noteq> None \<and> s ''registration_number'' \<noteq> None \<and>
     (\<exists>d. s ''department'' = Some d \<and> (d = [] \<or> d \<in> set departments)) \<and>
     (\<exists>y. s ''year'' = Some y \<and> (y = [] \<or> y \<in> set year_order)) \<and>
     (s ''category'' = None \<or> s ''category'' = Some ''Hostel'')"

definition complete :: "student \<Rightarrow> bool" where
  "complete s \<longleftrightarrow>
     s ''full_name'' \<noteq> None \<and> s ''registration_number'' \<noteq> None \<and> s ''department'' \<noteq> None"

definition valid_field :: "string \<Rightarrow> student \<Rightarrow> bool" where
  "valid_field k s \<longleftrightarrow> (case s k of None \<Rightarrow> True | Some v \<Rightarrow> xml_compatible v)"

definition printable :: "string \<Rightarrow> student \<Rightarrow> bool" where
  "printable y s \<longleftrightarrow>
     valid_field ''full_name'' s \<and> valid_field ''registration_number'' s \<and>
     valid_field ''department'' s \<and>
     (if y = ''First'' then valid_field ''section'' s else s ''department'' \<noteq> Some [])"

definition readable :: "student \<Rightarrow> bool" where
  "readable s \<longleftrightarrow>
     s ''year'' \<noteq> None \<and>
     (\<forall>y\<in>set year_order. s ''year'' = Some y \<longrightarrow> complete s \<and> printable y s)"

definition year_sections ::
  "(string \<Rightarrow> student list \<Rightarrow> block list) \<Rightarrow> student list \<Rightarrow> block list" where
  "year_sections content bucket =
     concat (map
       (\<lambda>year.
          if filter (\<lambda>s. s ''year'' = Some year) bucket = [] then []
          else Heading 2 [\<lparr>run_text = year @ '' Year'', run_bold = None,
                           run_color = Some (RGBColor 0 0 0)\<rparr>]
                 # content year (filter (\<lambda>s. s ''year'' = Some year) bucket))
       [''Fourth'', ''Third'', ''Second'', ''First''])"

section \<open>Lemmas\<close>


lemma digit_nth_mem: "n < 10 \<Longrightarrow> ''0123456789'' ! n \<in> set ''0123456789''"
  by (rule nth_mem) simp




lemma py_str_digits: "set (py_str n) \<subseteq> set ''0123456789''"
proof (induction n rule: py_str.induct)
  case (1 n)
  show ?case
  proof (cases "n < 10")
    case True
    then show ?thesis
      using digit_nth_mem [of n] by (subst py_str.simps) simp
  next
    case False
    with 1 have "set (py_str (n div 10)) \<subseteq> set ''0123456789''" by simp
    moreover have "''0123456789'' ! (n mod 10) \<in> set ''0123456789''"
      by (rule digit_nth_mem) simp
    ultimately show ?thesis
      using False by (subst py_str.simps) simp
  qed
qed



lemma non_character_plain: "plain_char c \<Longrightarrow> \<not> non_character (c # cs)"
  by (cases cs) (auto simp: non_character.simps plain_char_def)

lemma xml_compatible_Cons_plain:
  "plain_char c \<Longrightarrow> xml_compatible (c # cs) = xml_compatible cs"
  by (simp add: xml_compatible.simps non_character_plain) (simp add: plain_char_def)

lemma xml_compatible_plain_prefix:
  "\<forall>c\<in>set p. plain_char c \<Longrightarrow> xml_compatible (p @ cs) = xml_compatible cs"
  by (induction p) (simp_all add: xml_compatible_Cons_plain)

lemma non_character_snoc: "plain_char c \<Longrightarrow> non_character (xs @ [c]) = non_character xs"
  by (cases xs rule: non_character.cases)
     (auto simp: non_character.simps plain_char_def split: list.splits)

lemma xml_compatible_snoc:
  "plain_char c \<Longrightarrow> xml_compatible (xs @ [c]) = xml_compatible xs"
proof (induction xs)
  case Nil
  then show ?case
    by (simp add: xml_compatible.simps non_character.simps plain_char_def)
next
  case (Cons a xs)
  with non_character_snoc [of c "a # xs"] show ?case
    by (simp add: xml_compatible.simps)
qed

lemma plain_digit: "c \<in> set ''0123456789'' \<Longrightarrow> plain_char c"
proof -
  have "\<forall>c\<in>set ''0123456789''. plain_char c"
    by (simp add: plain_char_def xml_char_def)
  then show "c \<in> set ''0123456789'' \<Longrightarrow> plain_char c" by blast
qed

lemma plain_py_str: "\<forall>c\<in>set (py_str n). plain_char c"
  using py_str_digits [of n] plain_digit by blast

lemma plain_TAB: "plain_char TAB"
  by (simp add: plain_char_def xml_char_def TAB_def)

lemma xml_compatible_run1 [simp]:
  "xml_compatible (py_str i @ CHR ''.'' # TAB # t @ [TAB]) = xml_compatible t"
proof -
  have "plain_char CHR ''.''" by (simp add: plain_char_def xml_char_def)
  with plain_py_str [of i] plain_TAB have "\<forall>c\<in>set (py_str i @ ''.'' @ [TAB]). plain_char c"
    by simp
  from xml_compatible_plain_prefix [OF this, of "t @ [TAB]"] show ?thesis
    by (simp add: xml_compatible_snoc plain_TAB)
qed

lemma xml_compatible_run3 [simp]: "xml_compatible (TAB # t) = xml_compatible t"
  by (simp add: xml_compatible_Cons_plain plain_TAB)

lemma xml_compatible_py_str [simp]: "xml_compatible (py_str i)"
  using xml_compatible_plain_prefix [OF plain_py_str, of i "[]"]
  by (simp add: xml_compatible.simps)

lemma xml_compatible_en_dash [simp]: "xml_compatible en_dash"
  by (simp add: en_dash_def xml_compatible.simps non_character.simps xml_char_def)

lemma invalid_None_iff [simp]: "invalid t = None \<longleftrightarrow> xml_compatible t"
  by (simp add: invalid_def)

lemma invalid_py_str [simp]: "invalid (py_str i) = None"
  by simp

lemma orelse_simps [simp]:
  "orelse None b = b" "orelse (Some e) b = Some e" "orelse a None = a"
  by (simp_all add: orelse_def split: option.splits)

lemma orelse_assoc: "orelse (orelse a b) c = orelse a (orelse b c)"
  by (simp add: orelse_def split: option.splits)

lemma result_None [simp]: "result doc None bs = Inr (doc\<lparr>body := body doc @ bs\<rparr>)"
  by (simp add: result_def)

lemma result_Some [simp]: "result doc (Some e) bs = Inl e"
  by (simp add: result_def)

lemma result_seq:
  "(case result doc e1 b1 of Inl e \<Rightarrow> Inl e | Inr d \<Rightarrow> result d e2 b2)
     = result doc (orelse e1 e2) (b1 @ b2)"
  by (cases e1; cases e2) simp_all

lemma result_nil: "Inr doc = result doc None []"
  by simp

lemma first_error_append:
  "first_error f (xs @ ys) = orelse (first_error f xs) (first_error f ys)"
  by (induction xs) (simp_all add: orelse_assoc)

lemma first_error_map: "first_error f (map g xs) = first_error (f \<circ> g) xs"
  by (induction xs) simp_all

lemma first_error_enumerate:
  "first_error (\<lambda>p. f (snd p)) (List.enumerate n xs) = first_error f xs"
  by (induction xs arbitrary: n) simp_all

lemma first_error_None_iff: "first_error f xs = None \<longleftrightarrow> (\<forall>x\<in>set xs. f x = None)"
  by (induction xs) (auto simp: orelse_def split: option.splits)

lemma first_error_SomeD: "first_error f xs = Some e \<Longrightarrow> \<exists>x\<in>set xs. f x = Some e"
  by (induction xs) (auto simp: orelse_def split: option.splits)

lemma senior_loop_result:
  "senior_loop doc xs =
     result doc (first_error (\<lambda>p. senior_error (snd p)) xs) (map senior_paragraph xs)"
proof (induction xs arbitrary: doc)
  case Nil
  show ?case by simp
next
  case (Cons p xs)
  obtain i s where p: "p = (i, s)" by (cases p)
  show ?case
    by (cases "s ''full_name''"; cases "s ''registration_number''")
       (auto simp: p Cons.IH senior_error_def missing_def invalid_def add_run_def
          senior_paragraph_def get_field_def result_def split: option.splits)
qed

lemma add_senior_student_list_result:
  "add_senior_student_list doc students =
     result doc (first_error senior_error students) (senior_body students)"
  by (simp add: add_senior_student_list_def senior_loop_result first_error_enumerate senior_body_def)

lemma enumerate_nth_map:
  "j < length xs \<Longrightarrow> map f (List.enumerate n xs) ! j = f (n + j, xs ! j)"
  by (simp add: nth_enumerate_eq)

lemma add_heading_result:
  "add_heading doc t level = result doc (heading_error t) [Heading level [black_run t]]"
  by (simp add: add_heading_def heading_error_def invalid_def add_run_def)

lemma department_keys_result:
  "department_keys students =
     (case first_error (missing ''department'') students of
        Some e \<Rightarrow> Inl e
      | None \<Rightarrow> Inr (map (\<lambda>s. (get_field ''department'' s, s)) students))"
  by (induction students)
     (auto simp: missing_def get_field_def orelse_def split: option.splits sum.splits)

lemma insort_key_decorate:
  "insort_key fst (f x, x) (map (\<lambda>s. (f s, s)) ys) = map (\<lambda>s. (f s, s)) (insort_key f x ys)"
  by (induction ys) simp_all

lemma sort_key_decorate:
  "sort_key fst (map (\<lambda>s. (f s, s)) xs) = map (\<lambda>s. (f s, s)) (sort_key f xs)"
  by (induction xs) (simp_all add: insort_key_decorate)

lemma sorted_students_result:
  "sorted_students students =
     (case first_error (missing ''department'') students of
        Some e \<Rightarrow> Inl e
      | None \<Rightarrow> Inr (first_year_sorted students))"
  by (simp add: sorted_students_def department_keys_result sort_key_decorate first_year_sorted_def
        comp_def split: option.splits)

lemma cell_runs_result:
  "cell_runs ts =
     (case first_error invalid ts of
        Some e \<Rightarrow> Inl e
      | None \<Rightarrow> Inr (map (\<lambda>cell_text. [black_run cell_text]) ts))"
  by (induction ts) (auto simp: add_run_def invalid_def orelse_def split: option.splits)

lemma data_rows_Cons:
  "data_rows ((i, s) # xs) =
     (case row_error s of
        Some e \<Rightarrow> Inl e
      | None \<Rightarrow>
          (case data_rows xs of
             Inl e \<Rightarrow> Inl e
           | Inr rows \<Rightarrow> Inr (table_row (i, s) # rows)))"
proof (cases "s ''full_name''")
  case None
  then show ?thesis by (simp add: row_error_def missing_def)
next
  case name: (Some a)
  show ?thesis
  proof (cases "s ''registration_number''")
    case None
    with name show ?thesis by (simp add: row_error_def missing_def)
  next
    case number: (Some b)
    show ?thesis
    proof (cases "s ''department''")
      case None
      with name number show ?thesis by (simp add: row_error_def missing_def)
    next
      case dept: (Some c)
      define ts where "ts = [a, b, section_text s, c]"
      have row: "row_error s = first_error invalid ts"
        by (simp add: row_error_def missing_def name number dept get_field_def ts_def)
      have cells: "cell_runs (py_str i # ts) =
          (case first_error invalid ts of
             Some e \<Rightarrow> Inl e
           | None \<Rightarrow> Inr (table_row (i, s)))"
      proof -
        have "table_row (i, s) = map (\<lambda>cell_text. [black_run cell_text]) (py_str i # ts)"
          by (simp add: table_row_def get_field_def name number dept ts_def)
        then show ?thesis
          by (cases "first_error invalid ts") (simp_all add: cell_runs_result)
      qed
      have "data_rows ((i, s) # xs) =
          (case cell_runs (py_str i # ts) of
             Inl e \<Rightarrow> Inl e
           | Inr cells \<Rightarrow>
               (case data_rows xs of
                  Inl e \<Rightarrow> Inl e
                | Inr rows \<Rightarrow> Inr (cells # rows)))"
        by (simp add: name number dept ts_def section_text_def)
      then show ?thesis
        unfolding cells row by (cases "first_error invalid ts") simp_all
    qed
  qed
qed

lemma data_rows_result:
  "data_rows xs =
     (case first_error (\<lambda>p. row_error (snd p)) xs of
        Some e \<Rightarrow> Inl e
      | None \<Rightarrow> Inr (map table_row xs))"
proof (induction xs)
  case Nil
  show ?case by simp
next
  case (Cons p xs)
  obtain i s where p: "p = (i, s)" by (cases p)
  show ?case
    unfolding p data_rows_Cons Cons.IH
    by (cases "row_error s"; cases "first_error (\<lambda>p. row_error (snd p)) xs") simp_all
qed

lemma add_first_year_table_result:
  "add_first_year_table doc students =
     result doc (first_year_error students) (first_year_body students)"
  by (cases "students = []")
     (auto simp: add_first_year_table_def sorted_students_result data_rows_result
        first_error_enumerate first_year_error_def first_year_body_def first_year_sorted_def
        orelse_def split: option.splits)

lemma subscript_result:
  "subscript k s = (case missing k s of Some e \<Rightarrow> Inl e | None \<Rightarrow> Inr (get_field k s))"
  by (simp add: subscript_def missing_def get_field_def split: option.splits)

lemma group_students_result:
  assumes "\<And>s. key s = (case err s of Some e \<Rightarrow> Inl e | None \<Rightarrow> Inr (g s))"
  shows "group_students key d xs =
           (case first_error err xs of Some e \<Rightarrow> Inl e | None \<Rightarrow> Inr (grouped g d xs))"
  by (induction xs arbitrary: d) (auto simp: assms grouped_def orelse_def split: option.splits)

lemma map_of_bucket_append:
  "map_of (bucket_append d k s) k' =
     (if k' = k then Some ((case map_of d k of None \<Rightarrow> [] | Some b \<Rightarrow> b) @ [s]) else map_of d k')"
  by (simp add: bucket_append_def update_conv')

lemma keys_bucket_append:
  "fst ` set (bucket_append d k s) = insert k (fst ` set d)"
  using arg_cong [OF update_keys [of k _ d], of set]
  by (auto simp: bucket_append_def)

lemma distinct_bucket_append:
  "distinct (map fst d) \<Longrightarrow> distinct (map fst (bucket_append d k s))"
  by (simp add: bucket_append_def distinct_update)

lemma map_of_grouped:
  "map_of (grouped g d xs) k =
     (if filter (\<lambda>s. g s = k) xs = [] then map_of d k
      else Some ((case map_of d k of None \<Rightarrow> [] | Some b \<Rightarrow> b) @ filter (\<lambda>s. g s = k) xs))"
  unfolding grouped_def
  by (induction xs arbitrary: d) (auto simp: map_of_bucket_append)

lemma keys_grouped:
  "fst ` set (grouped g d xs) = fst ` set d \<union> g ` set xs"
  unfolding grouped_def
  by (induction xs arbitrary: d) (simp_all add: keys_bucket_append)

lemma distinct_grouped:
  "distinct (map fst d) \<Longrightarrow> distinct (map fst (grouped g d xs))"
  unfolding grouped_def
  by (induction xs arbitrary: d) (auto simp: distinct_bucket_append)

lemma sort_keys_grouped:
  "sort (map fst (grouped g [] xs)) = sort (remdups (map g xs))"
proof -
  have "distinct (map fst (grouped g [] xs))"
    by (rule distinct_grouped) simp
  moreover have "set (map fst (grouped g [] xs)) = set (remdups (map g xs))"
    by (simp add: keys_grouped)
  ultimately have "mset (map fst (grouped g [] xs)) = mset (remdups (map g xs))"
    by (metis distinct_remdups set_eq_iff_mset_eq_distinct)
  then show ?thesis
    by (intro properties_for_sort) simp_all
qed

lemma map_of_grouped_key:
  assumes "k \<in> set (map fst (grouped g [] xs))"
  shows "map_of (grouped g [] xs) k = Some (filter (\<lambda>s. g s = k) xs)"
proof -
  from assms have "k \<in> g ` set xs"
    by (simp add: keys_grouped)
  then have "filter (\<lambda>s. g s = k) xs \<noteq> []"
    by (auto simp: filter_empty_conv)
  then show ?thesis
    by (simp add: map_of_grouped)
qed

lemma map_of_grouped_empty:
  "map_of (grouped g [] xs) k =
     (if filter (\<lambda>s. g s = k) xs = [] then None else Some (filter (\<lambda>s. g s = k) xs))"
  by (simp add: map_of_grouped)

lemma result_append_body [simp]:
  "result (doc\<lparr>body := body doc @ a\<rparr>) e b = result doc e (a @ b)"
  by (simp add: result_def split: option.splits)

lemma dept_loop_result:
  assumes "\<forall>k\<in>set ks. map_of sbd k = Some (bucket k)"
  shows "dept_loop doc sbd ks =
           result doc
             (first_error (\<lambda>k. orelse (heading_error k) (first_error senior_error (bucket k))) ks)
             (concat (map (\<lambda>k. Heading 3 [black_run k] # senior_body (bucket k)) ks))"
  using assms
proof (induction ks arbitrary: doc)
  case Nil
  show ?case by simp
next
  case (Cons k ks)
  then have k: "map_of sbd k = Some (bucket k)" and ks: "\<forall>k\<in>set ks. map_of sbd k = Some (bucket k)"
    by simp_all
  show ?case
    by (simp add: k Cons.IH [OF ks] add_heading_result add_senior_student_list_result
          result_seq orelse_assoc cong: sum.case_cong)
qed

lemma year_content_result:
  "year_content doc y students =
     result doc (year_content_error y students) (year_content_body y students)"
proof (cases "y = ''First''")
  case True
  then show ?thesis
    by (simp add: year_content_def year_content_error_def year_content_body_def
          add_first_year_table_result)
next
  case False
  let ?G = "grouped (get_field ''department'') [] students"
  have G: "group_students (subscript ''department'') [] students =
             (case first_error (missing ''department'') students of
                Some e \<Rightarrow> Inl e | None \<Rightarrow> Inr ?G)"
    by (rule group_students_result) (rule subscript_result)
  have loop: "dept_loop doc ?G (sort (map fst ?G)) =
      result doc (first_error (dept_section_error students) (dept_names students))
        (senior_year_body students)"
  proof -
    have "\<forall>k\<in>set (sort (map fst ?G)). map_of ?G k = Some (dept_bucket students k)"
      by (simp add: map_of_grouped_key dept_bucket_def)
    from dept_loop_result [OF this, of doc] show ?thesis
      by (simp add: sort_keys_grouped dept_names_def dept_section_error_def [abs_def]
            dept_section_body_def [abs_def] senior_year_body_def)
  qed
  show ?thesis
    using False
    by (simp add: year_content_def year_content_error_def year_content_body_def G loop
          senior_year_error_def split: option.splits)
qed

lemma year_loop_result:
  assumes "\<And>y. map_of sby y = (if bucket y = [] then None else Some (bucket y))"
  shows "year_loop doc sby ys =
           result doc
             (first_error
                (\<lambda>y. if bucket y = [] then None
                     else orelse (heading_error (y @ '' Year'')) (year_content_error y (bucket y)))
                ys)
             (concat (map (\<lambda>y. if bucket y = [] then []
                                else Heading 2 [black_run (y @ '' Year'')]
                                       # year_content_body y (bucket y)) ys))"
proof (induction ys arbitrary: doc)
  case Nil
  show ?case by simp
next
  case (Cons y ys)
  show ?case
    by (simp add: assms Cons.IH add_heading_result year_content_result result_seq
          orelse_assoc cong: sum.case_cong)
qed

lemma category_content_result:
  "category_content doc c students =
     result doc (category_content_error c students) (category_content_body c students)"
proof -
  let ?G = "grouped (get_field ''year'') [] students"
  have G: "group_students (subscript ''year'') [] students =
             (case first_error (missing ''year'') students of
                Some e \<Rightarrow> Inl e | None \<Rightarrow> Inr ?G)"
    by (rule group_students_result) (rule subscript_result)
  have loop: "year_loop d ?G year_order =
      result d (first_error (year_section_error students) year_order)
        (concat (map (year_section_body students) year_order))" for d
  proof -
    have "map_of ?G y =
        (if year_bucket students y = [] then None else Some (year_bucket students y))" for y
      by (simp add: map_of_grouped_empty year_bucket_def)
    from year_loop_result [of ?G "year_bucket students", OF this] show ?thesis
      by (simp add: year_section_error_def [abs_def] year_section_body_def [abs_def])
  qed
  define E where "E = (if c = ''Uncategorized'' then None else heading_error c)"
  have head: "(if c = ''Uncategorized'' then Inr doc else add_heading doc c 1) =
      result doc E (category_heading c)"
    by (simp add: add_heading_result category_heading_def E_def)
  have err: "category_content_error c students =
      orelse E (orelse (first_error (missing ''year'') students)
        (first_error (year_section_error students) year_order))"
    by (simp add: category_content_error_def E_def)
  show ?thesis
  proof (cases "first_error (missing ''year'') students")
    case None
    then show ?thesis
      unfolding category_content_def head G err
      by (simp add: loop result_seq category_content_body_def cong: sum.case_cong)
  next
    case (Some a)
    then show ?thesis
      unfolding category_content_def head G err
      by (cases E) simp_all
  qed
qed

lemma category_loop_result:
  assumes "\<And>c. map_of cs c = (if bucket c = [] then None else Some (bucket c))"
  shows "category_loop doc cs ks =
           result doc
             (first_error (\<lambda>c. if bucket c = [] then None
                                else category_content_error c (bucket c)) ks)
             (concat (map (\<lambda>c. if bucket c = [] then []
                                else category_content_body c (bucket c)) ks))"
proof (induction ks arbitrary: doc)
  case Nil
  show ?case by simp
next
  case (Cons c ks)
  show ?case
    by (simp add: assms Cons.IH category_content_result result_seq cong: sum.case_cong)
qed

lemma first_error_no_error [simp]: "first_error (\<lambda>s. None) xs = None"
  by (induction xs) simp_all

lemma generate_student_document_result:
  "generate_student_document students =
     (case document_error students of
        Some e \<Rightarrow> Inl e
      | None \<Rightarrow> Inr \<lparr>font_name = ''Times New Roman'', font_size = 152400,
                    body = document_body students\<rparr>)"
proof -
  let ?G = "grouped category_of [] students"
  have G: "group_students (\<lambda>s. Inr (category_of s)) [] students = Inr ?G"
    using group_students_result
      [where key = "\<lambda>s. Inr (category_of s)" and err = "\<lambda>s. None" and g = category_of]
    by simp
  have loop: "category_loop d ?G category_order =
      result d (document_error students)
        (concat (map (category_section_body students) category_order))" for d
  proof -
    have "map_of ?G c =
        (if category_bucket students c = [] then None
         else Some (category_bucket students c))" for c
      by (simp add: map_of_grouped_empty category_bucket_def)
    from category_loop_result [of ?G "category_bucket students", OF this] show ?thesis
      by (simp add: category_section_error_def [abs_def] category_section_body_def [abs_def]
            document_error_def)
  qed
  have title: "add_heading new_document ''VOLUNTEERS LIST'' 0 =
      Inr (new_document\<lparr>body := [title_heading]\<rparr>)"
    by (simp add: add_heading_def add_run_def xml_compatible.simps non_character.simps
          xml_char_def new_document_def title_heading_def)
  show ?thesis
    unfolding generate_student_document_def title
    by (simp add: G loop result_def new_document_def document_body_def split: option.splits)
qed

lemmas eval_defs =
  generate_student_document_def add_heading_def category_order_def year_order_def
  category_of_def bucket_append_def new_document_def category_content_def subscript_def
  year_content_def add_senior_student_list_def add_first_year_table_def sorted_students_def
  py_str.simps new_table_def header_row_def headers_def add_run_def xml_compatible.simps
  non_character.simps xml_char_def TAB_def en_dash_def

lemma generate_body:
  "generate_student_document students = Inr doc \<Longrightarrow> body doc = document_body students"
  by (auto simp: generate_student_document_result split: option.splits)

lemma generate_no_error:
  "generate_student_document students = Inr doc \<Longrightarrow> document_error students = None"
  by (auto simp: generate_student_document_result split: option.splits)

lemma black_senior_body: "b \<in> set (senior_body ss) \<Longrightarrow> explicit_black b"
  by (auto simp: senior_body_def senior_paragraph_def explicit_black_def black_run_def black_def)

lemma black_first_year_body: "b \<in> set (first_year_body ss) \<Longrightarrow> explicit_black b"
  by (auto simp: first_year_body_def explicit_black_def new_table_def header_row_def
        table_row_def black_run_def black_def split: if_splits)

lemma black_dept_section:
  "heading_error k = None \<Longrightarrow> b \<in> set (dept_section_body ss k) \<Longrightarrow> explicit_black b"
  by (auto simp: dept_section_body_def black_senior_body)
     (simp add: explicit_black_def black_run_def black_def)

lemma black_year_content:
  assumes "year_content_error y ss = None" "b \<in> set (year_content_body y ss)"
  shows "explicit_black b"
proof (cases "y = ''First''")
  case True
  with assms show ?thesis
    by (simp add: year_content_body_def black_first_year_body)
next
  case False
  with assms have err: "first_error (dept_section_error ss) (dept_names ss) = None"
    and b: "b \<in> set (senior_year_body ss)"
    by (auto simp: year_content_error_def year_content_body_def senior_year_error_def
          orelse_def split: option.splits)
  from b obtain k where k: "k \<in> set (dept_names ss)" and bk: "b \<in> set (dept_section_body ss k)"
    by (auto simp: senior_year_body_def)
  from err k have "dept_section_error ss k = None"
    by (simp add: first_error_None_iff)
  then have "heading_error k = None"
    by (auto simp: dept_section_error_def orelse_def split: option.splits)
  with bk show ?thesis by (rule black_dept_section [rotated])
qed

lemma black_year_section:
  assumes "year_section_error ss y = None" "b \<in> set (year_section_body ss y)"
  shows "explicit_black b"
proof (cases "year_bucket ss y = []")
  case True
  with assms(2) show ?thesis by (simp add: year_section_body_def)
next
  case False
  with assms(1) have err: "year_content_error y (year_bucket ss y) = None"
    by (auto simp: year_section_error_def orelse_def split: option.splits)
  from False assms(2) consider "b = Heading 2 [black_run (y @ '' Year'')]"
    | "b \<in> set (year_content_body y (year_bucket ss y))"
    by (auto simp: year_section_body_def)
  then show ?thesis
  proof cases
    case 1
    then show ?thesis by (simp add: explicit_black_def black_run_def black_def)
  next
    case 2
    with err show ?thesis by (rule black_year_content)
  qed
qed

lemma black_category_section:
  assumes "category_section_error ss c = None" "b \<in> set (category_section_body ss c)"
  shows "explicit_black b"
proof -
  let ?cs = "category_bucket ss c"
  from assms have ne: "?cs \<noteq> []" and b: "b \<in> set (category_content_body c ?cs)"
    and err: "category_content_error c ?cs = None"
    by (auto simp: category_section_error_def category_section_body_def split: if_splits)
  from err have years: "first_error (year_section_error ?cs) year_order = None"
    by (auto simp: category_content_error_def orelse_def split: option.splits if_splits)
  from b consider "b \<in> set (category_heading c)"
    | y where "y \<in> set year_order" "b \<in> set (year_section_body ?cs y)"
    by (auto simp: category_content_body_def)
  then show ?thesis
  proof cases
    case 1
    from err have "c \<noteq> ''Uncategorized'' \<Longrightarrow> heading_error c = None"
      by (auto simp: category_content_error_def orelse_def split: option.splits if_splits)
    with 1 show ?thesis
      by (auto simp: category_heading_def explicit_black_def black_run_def black_def
            split: if_splits)
  next
    case 2
    from years 2(1) have "year_section_error ?cs y = None"
      by (simp add: first_error_None_iff)
    then show ?thesis using 2(2) by (rule black_year_section)
  qed
qed

lemma headings_simps [simp]:
  "headings [] = []"
  "headings (b # bs) = heading_entry b @ headings bs"
  "headings (as @ bs) = headings as @ headings bs"
  by (simp_all add: headings_def)

lemma headings_of_levels_simps [simp]:
  "headings_of_levels L [] = []"
  "headings_of_levels L (as @ bs) = headings_of_levels L as @ headings_of_levels L bs"
  "headings_of_levels L (Heading level rs # bs) =
     (if level \<in> L then [(level, concat (map run_text rs))] else []) @ headings_of_levels L bs"
  "headings_of_levels L (Paragraph fmt rs # bs) = headings_of_levels L bs"
  "headings_of_levels L (Table t # bs) = headings_of_levels L bs"
  by (simp_all add: headings_of_levels_def)

lemma headings_of_levels_concat:
  "headings_of_levels L (concat bss) = concat (map (headings_of_levels L) bss)"
  by (induction bss) simp_all

lemma get_field_eq_iff: "y \<noteq> [] \<Longrightarrow> get_field k s = y \<longleftrightarrow> s k = Some y"
  by (auto simp: get_field_def split: option.splits)

lemma year_bucket_filter:
  "y \<noteq> [] \<Longrightarrow> year_bucket students y = filter (\<lambda>s. s ''year'' = Some y) students"
  by (simp add: year_bucket_def get_field_eq_iff)

lemma headings_senior_body [simp]: "headings_of_levels L (senior_body ss) = []"
  by (simp add: senior_body_def headings_of_levels_def headings_def senior_paragraph_def)

lemma headings_first_year_body [simp]: "headings_of_levels L (first_year_body ss) = []"
  by (simp add: first_year_body_def)

lemma headings_dept_section:
  "headings_of_levels L (dept_section_body ss k) = (if 3 \<in> L then [(3, k)] else [])"
  by (simp add: dept_section_body_def black_run_def)

lemma headings_year_content:
  "3 \<notin> L \<Longrightarrow> headings_of_levels L (year_content_body y ss) = []"
  by (simp add: year_content_body_def senior_year_body_def headings_of_levels_concat
        headings_dept_section comp_def)

lemma headings_year_section:
  "3 \<notin> L \<Longrightarrow> headings_of_levels L (year_section_body ss y) =
     (if year_bucket ss y = [] \<or> 2 \<notin> L then [] else [(2, y @ '' Year'')])"
  by (simp add: year_section_body_def headings_year_content black_run_def)

lemma category_of_eq_iff:
  "c \<noteq> ''Uncategorized'' \<Longrightarrow> category_of s = c \<longleftrightarrow> s ''category'' = Some c"
  "category_of s = ''Uncategorized'' \<longleftrightarrow>
     s ''category'' = None \<or> s ''category'' = Some ''Uncategorized''"
  by (auto simp: category_of_def split: option.splits)

lemma categorized_students_result:
  "group_students (\<lambda>s. Inr (category_of s)) [] students
     = Inr (grouped category_of [] students)"
  using group_students_result
    [where key = "\<lambda>s. Inr (category_of s)" and err = "\<lambda>s. None" and g = category_of]
  by simp

lemma headings_year_sections:
  "3 \<notin> L \<Longrightarrow> 2 \<notin> L \<Longrightarrow>
     headings_of_levels L (concat (map (year_section_body ss) ys)) = []"
  by (induction ys) (simp_all add: headings_year_section)

lemma rendered_simps [simp]:
  "rendered_registration_numbers [] = []"
  "rendered_registration_numbers (b # bs) =
     block_registration_numbers b @ rendered_registration_numbers bs"
  "rendered_registration_numbers (as @ bs) =
     rendered_registration_numbers as @ rendered_registration_numbers bs"
  by (simp_all add: rendered_registration_numbers_def)

lemma rendered_concat:
  "rendered_registration_numbers (concat bss) =
     concat (map rendered_registration_numbers bss)"
  by (induction bss) simp_all

lemma rendered_enumerate:
  "rendered_registration_numbers (map senior_paragraph (List.enumerate n ss)) =
     map (get_field ''registration_number'') ss"
  by (induction ss arbitrary: n) (simp_all add: senior_paragraph_def black_run_def)

lemma rendered_senior_body:
  "rendered_registration_numbers (senior_body ss) = map (get_field ''registration_number'') ss"
  by (simp add: senior_body_def rendered_enumerate)

lemma row_numbers_enumerate:
  "map (row_registration_number \<circ> table_row) (List.enumerate n ss) =
     map (get_field ''registration_number'') ss"
  by (induction ss arbitrary: n) (simp_all add: table_row_def black_run_def)

lemma rendered_first_year_body:
  "rendered_registration_numbers (first_year_body ss) =
     map (get_field ''registration_number'') (first_year_sorted ss)"
  by (simp add: first_year_body_def new_table_def row_numbers_enumerate first_year_sorted_def)

lemma mset_filter_disjoint:
  "(\<And>x. \<not> (P x \<and> Q x)) \<Longrightarrow>
     mset (filter P xs) + mset (filter Q xs) = mset (filter (\<lambda>x. P x \<or> Q x) xs)"
  by (induction xs) auto

lemma mset_partition:
  "distinct ks \<Longrightarrow>
     (\<Sum>k\<leftarrow>ks. mset (filter (\<lambda>x. f x = k) xs)) = mset (filter (\<lambda>x. f x \<in> set ks) xs)"
proof (induction ks)
  case Nil
  show ?case by simp
next
  case (Cons k ks)
  then have "\<not> (f x = k \<and> f x \<in> set ks)" for x by auto
  from mset_filter_disjoint [of "\<lambda>x. f x = k" "\<lambda>x. f x \<in> set ks", OF this] Cons
  show ?case by simp
qed

lemma mset_rendered_sections:
  assumes "distinct ks"
    and "\<And>k. k \<in> set ks \<Longrightarrow> mset (rendered_registration_numbers (section k)) =
           image_mset g (mset (filter (\<lambda>x. f x = k) xs))"
  shows "mset (rendered_registration_numbers (concat (map section ks))) =
           image_mset g (mset (filter (\<lambda>x. f x \<in> set ks) xs))"
proof -
  have "mset (rendered_registration_numbers (concat (map section ks))) =
      (\<Sum>k\<leftarrow>ks. mset (rendered_registration_numbers (section k)))"
    by (simp add: rendered_concat mset_concat comp_def)
  also have "\<dots> = (\<Sum>k\<leftarrow>ks. image_mset g (mset (filter (\<lambda>x. f x = k) xs)))"
    using assms(2) by (simp cong: map_cong)
  also have "\<dots> = image_mset g (\<Sum>k\<leftarrow>ks. mset (filter (\<lambda>x. f x = k) xs))"
    by (induction ks) simp_all
  finally show ?thesis
    by (simp only: mset_partition [OF assms(1)])
qed

lemma mset_rendered_year_content:
  "mset (rendered_registration_numbers (year_content_body y ss)) =
     image_mset (get_field ''registration_number'') (mset ss)"
proof (cases "y = ''First''")
  case True
  then show ?thesis
    by (simp add: year_content_body_def rendered_first_year_body first_year_sorted_def)
next
  case False
  have "mset (rendered_registration_numbers
          (concat (map (dept_section_body ss) (dept_names ss)))) =
        image_mset (get_field ''registration_number'')
          (mset (filter (\<lambda>s. get_field ''department'' s \<in> set (dept_names ss)) ss))"
    by (rule mset_rendered_sections)
       (simp_all add: dept_names_def dept_section_body_def rendered_senior_body dept_bucket_def)
  moreover have "filter (\<lambda>s. get_field ''department'' s \<in> set (dept_names ss)) ss = ss"
    by (simp add: dept_names_def)
  ultimately show ?thesis
    using False by (simp add: year_content_body_def senior_year_body_def)
qed

lemma mset_rendered_year_section:
  "mset (rendered_registration_numbers (year_section_body ss y)) =
     image_mset (get_field ''registration_number'')
       (mset (filter (\<lambda>s. get_field ''year'' s = y) ss))"
  by (auto simp: year_section_body_def mset_rendered_year_content year_bucket_def
        filter_empty_conv)

lemma filter_commute: "filter P (filter Q xs) = filter Q (filter P xs)"
  by (induction xs) auto

lemma mset_rendered_category_section:
  "mset (rendered_registration_numbers (category_section_body ss c)) =
     image_mset (get_field ''registration_number'')
       (mset (filter (\<lambda>s. category_of s = c)
          (filter (\<lambda>s. get_field ''year'' s \<in> set year_order) ss)))"
proof -
  have years: "mset (rendered_registration_numbers
          (concat (map (year_section_body (category_bucket ss c)) year_order))) =
        image_mset (get_field ''registration_number'')
          (mset (filter (\<lambda>s. get_field ''year'' s \<in> set year_order) (category_bucket ss c)))"
    by (rule mset_rendered_sections) (simp_all add: year_order_def mset_rendered_year_section)
  have swap: "filter (\<lambda>s. category_of s = c)
          (filter (\<lambda>s. get_field ''year'' s \<in> set year_order) ss) =
        filter (\<lambda>s. get_field ''year'' s \<in> set year_order) (category_bucket ss c)"
    unfolding category_bucket_def by (rule filter_commute)
  show ?thesis
  proof (cases "category_bucket ss c = []")
    case True
    then show ?thesis
      unfolding swap by (simp add: category_section_body_def)
  next
    case False
    then show ?thesis
      unfolding swap using years
      by (simp add: category_section_body_def category_content_body_def category_heading_def)
  qed
qed

lemma mset_rendered_document_body:
  "mset (rendered_registration_numbers (document_body students)) =
     image_mset (get_field ''registration_number'')
       (mset (filter (\<lambda>s. category_of s \<in> set category_order \<and>
                          get_field ''year'' s \<in> set year_order) students))"
proof -
  have "mset (rendered_registration_numbers
          (concat (map (category_section_body students) category_order))) =
        image_mset (get_field ''registration_number'')
          (mset (filter (\<lambda>s. category_of s \<in> set category_order)
             (filter (\<lambda>s. get_field ''year'' s \<in> set year_order) students)))"
    by (rule mset_rendered_sections)
       (simp_all add: category_order_def mset_rendered_category_section)
  then show ?thesis
    by (simp add: document_body_def title_heading_def conj_commute)
qed

lemma missing_None_iff [simp]: "missing k s = None \<longleftrightarrow> s k \<noteq> None"
  by (simp add: missing_def)

lemma orelse_None_iff [simp]: "orelse a b = None \<longleftrightarrow> a = None \<and> b = None"
  by (cases a) simp_all

lemma heading_error_None_iff [simp]:
  "heading_error t = None \<longleftrightarrow> t \<noteq> [] \<and> xml_compatible t"
  by (simp add: heading_error_def)

lemma year_heading_error [simp]:
  "y \<in> set year_order \<Longrightarrow> heading_error (y @ '' Year'') = None"
  by (auto simp: year_order_def xml_compatible.simps non_character.simps xml_char_def)

lemma category_heading_error:
  "c \<in> set category_order \<Longrightarrow> heading_error c = None"
  by (auto simp: category_order_def xml_compatible.simps non_character.simps xml_char_def)

lemma valid_field_get:
  "s k \<noteq> None \<Longrightarrow> xml_compatible (get_field k s) \<longleftrightarrow> valid_field k s"
  by (auto simp: valid_field_def get_field_def)

lemma section_text_valid: "xml_compatible (section_text s) \<longleftrightarrow> valid_field ''section'' s"
  by (auto simp: section_text_def valid_field_def xml_compatible.simps non_character.simps
        xml_char_def split: option.splits)

lemma row_error_None_iff:
  "row_error s = None \<longleftrightarrow> complete s \<and> printable ''First'' s"
  by (auto simp: row_error_def complete_def printable_def valid_field_get section_text_valid)

lemma senior_error_None_iff:
  "senior_error s = None \<longleftrightarrow>
     s ''full_name'' \<noteq> None \<and> s ''registration_number'' \<noteq> None \<and>
     valid_field ''full_name'' s \<and> valid_field ''registration_number'' s"
  by (auto simp: senior_error_def valid_field_get)

lemma first_year_error_None_iff:
  "first_year_error ss = None \<longleftrightarrow> (\<forall>s\<in>set ss. complete s \<and> printable ''First'' s)"
  by (auto simp: first_year_error_def first_error_None_iff first_year_sorted_def
        row_error_None_iff complete_def)

lemma senior_year_error_None_iff:
  assumes y: "y \<noteq> ''First''"
  shows "senior_year_error ss = None \<longleftrightarrow> (\<forall>s\<in>set ss. complete s \<and> printable y s)"
proof
  assume err: "senior_year_error ss = None"
  show "\<forall>s\<in>set ss. complete s \<and> printable y s"
  proof
    fix s assume s: "s \<in> set ss"
    let ?k = "get_field ''department'' s"
    from err s have dept: "s ''department'' \<noteq> None"
      by (simp add: senior_year_error_def first_error_None_iff)
    have "?k \<in> set (dept_names ss)"
      using s by (simp add: dept_names_def)
    with err have k: "dept_section_error ss ?k = None"
      by (simp add: senior_year_error_def first_error_None_iff)
    moreover have "s \<in> set (dept_bucket ss ?k)"
      using s by (simp add: dept_bucket_def)
    ultimately have "senior_error s = None" and "?k \<noteq> []" and "xml_compatible ?k"
      by (simp_all add: dept_section_error_def first_error_None_iff)
    with dept y show "complete s \<and> printable y s"
      by (auto simp: senior_error_None_iff complete_def printable_def valid_field_def
            get_field_def)
  qed
next
  assume ok: "\<forall>s\<in>set ss. complete s \<and> printable y s"
  have "dept_section_error ss k = None" if "k \<in> set (dept_names ss)" for k
  proof -
    from that obtain s where s: "s \<in> set ss" "get_field ''department'' s = k"
      by (auto simp: dept_names_def)
    with ok have "complete s" "printable y s" by simp_all
    with y s(2) have "k \<noteq> []" "xml_compatible k"
      by (auto simp: complete_def printable_def valid_field_def get_field_def
            split: option.splits)
    moreover have "senior_error t = None" if "t \<in> set ss" for t
      using ok that y
      by (auto simp: senior_error_None_iff complete_def printable_def)
    ultimately show ?thesis
      by (simp add: dept_section_error_def first_error_None_iff dept_bucket_def)
  qed
  with ok show "senior_year_error ss = None"
    by (simp add: senior_year_error_def first_error_None_iff complete_def)
qed

lemma year_content_error_None_iff:
  "year_content_error y ss = None \<longleftrightarrow> (\<forall>s\<in>set ss. complete s \<and> printable y s)"
  by (simp add: year_content_error_def first_year_error_None_iff senior_year_error_None_iff)

lemma year_section_error_None_iff:
  "y \<in> set year_order \<Longrightarrow> year_section_error ss y = None \<longleftrightarrow>
     (\<forall>s\<in>set ss. s ''year'' = Some y \<longrightarrow> complete s \<and> printable y s)"
proof -
  assume y: "y \<in> set year_order"
  then have "y \<noteq> []" by (auto simp: year_order_def)
  with y show ?thesis
    by (auto simp: year_section_error_def year_content_error_None_iff year_bucket_filter
          filter_empty_conv)
qed

lemma category_section_error_None_iff:
  assumes "c \<in> set category_order"
  shows "category_section_error ss c = None \<longleftrightarrow>
           (\<forall>s\<in>set ss. category_of s = c \<longrightarrow> readable s)"
proof -
  have c: "c \<noteq> ''Uncategorized'' \<Longrightarrow> heading_error c = None"
    using assms by (rule category_heading_error)
  have years: "first_error (year_section_error xs) year_order = None \<longleftrightarrow>
      (\<forall>s\<in>set xs. \<forall>y\<in>set year_order. s ''year'' = Some y \<longrightarrow> complete s \<and> printable y s)"
    for xs
    by (simp add: first_error_None_iff year_section_error_None_iff) blast
  show ?thesis
  proof (cases "category_bucket ss c = []")
    case True
    then show ?thesis
      by (auto simp: category_section_error_def category_bucket_def filter_empty_conv)
  next
    case False
    let ?B = "category_bucket ss c"
    have "first_error (missing ''year'') ?B = None \<longleftrightarrow> (\<forall>s\<in>set ?B. s ''year'' \<noteq> None)"
      by (simp add: first_error_None_iff)
    with False c have "category_section_error ss c = None \<longleftrightarrow>
        (\<forall>s\<in>set ?B. s ''year'' \<noteq> None) \<and>
        (\<forall>s\<in>set ?B. \<forall>y\<in>set year_order. s ''year'' = Some y \<longrightarrow> complete s \<and> printable y s)"
      by (simp add: category_section_error_def category_content_error_def years
            del: heading_error_None_iff)
    then show ?thesis
      by (auto simp: category_bucket_def readable_def)
  qed
qed

lemma document_error_None_iff:
  "document_error students = None \<longleftrightarrow>
     (\<forall>s\<in>set students. category_of s \<in> set category_order \<longrightarrow> readable s)"
  by (auto simp: document_error_def first_error_None_iff category_section_error_None_iff)

lemma generate_Inr_iff:
  "(\<exists>doc. generate_student_document students = Inr doc) \<longleftrightarrow>
     (\<forall>s\<in>set students. category_of s \<in> set category_order \<longrightarrow> readable s)"
  by (auto simp: generate_student_document_result document_error_None_iff [symmetric]
        split: option.splits)

lemma schema_category: "schema_invariants s \<Longrightarrow> category_of s \<in> set category_order"
  by (auto simp: schema_invariants_def category_of_def category_order_def)

lemma schema_year:
  assumes "schema_invariants s"
  shows "get_field ''year'' s \<in> set year_order \<longleftrightarrow> s ''year'' \<noteq> Some []"
proof -
  from assms obtain y where y: "s ''year'' = Some y" and dom: "y = [] \<or> y \<in> set year_order"
    unfolding schema_invariants_def by blast
  have "[] \<notin> set year_order" by (simp add: year_order_def)
  with y dom show ?thesis by (auto simp: get_field_def)
qed

lemma schema_number:
  "schema_invariants s \<Longrightarrow>
     Some (get_field ''registration_number'' s) = s ''registration_number''"
  unfolding schema_invariants_def get_field_def by (cases "s ''registration_number''") simp_all

lemma year_sections_body:
  "concat (map (year_section_body bucket) year_order) = year_sections year_content_body bucket"
  by (simp add: year_sections_def year_section_body_def year_order_def year_bucket_filter
        black_run_def black_def)

lemma generate_rendered_complete:
  assumes "generate_student_document students = Inr doc"
    and "s \<in> set students" "category_of s \<in> set category_order"
    and "s ''year'' = Some y" "y \<in> set year_order"
  shows "complete s"
proof -
  from assms(1) have "\<exists>doc. generate_student_document students = Inr doc" by blast
  then have "\<forall>s\<in>set students. category_of s \<in> set category_order \<longrightarrow> readable s"
    by (simp only: generate_Inr_iff)
  with assms(2,3) have "readable s" by blast
  with assms(4,5) show ?thesis unfolding readable_def by blast
qed

lemma mset_rendered_year_bucket:
  assumes run: "generate_student_document students = Inr doc"
    and cat: "\<And>s. s \<in> set bucket \<Longrightarrow> s \<in> set students \<and> category_of s \<in> set category_order"
    and y: "y \<in> set year_order"
  shows "mset (map Some (rendered_registration_numbers
            (year_content_body y (filter (\<lambda>s. s ''year'' = Some y) bucket)))) =
         mset (map (\<lambda>s. s ''registration_number'') (filter (\<lambda>s. s ''year'' = Some y) bucket))"
proof -
  let ?ss = "filter (\<lambda>s. s ''year'' = Some y) bucket"
  have "mset (map Some (rendered_registration_numbers (year_content_body y ?ss))) =
      image_mset Some (mset (rendered_registration_numbers (year_content_body y ?ss)))"
    by simp
  also have "\<dots> = image_mset Some (image_mset (get_field ''registration_number'') (mset ?ss))"
    by (simp only: mset_rendered_year_content)
  also have "\<dots> = mset (map (\<lambda>s. Some (get_field ''registration_number'' s)) ?ss)"
    by (simp add: image_mset.compositionality comp_def)
  also have "map (\<lambda>s. Some (get_field ''registration_number'' s)) ?ss =
      map (\<lambda>s. s ''registration_number'') ?ss"
  proof (rule map_cong [OF refl])
    fix s assume "s \<in> set ?ss"
    then have "s \<in> set bucket" "s ''year'' = Some y" by simp_all
    with cat [of s] run y have "complete s"
      by (blast intro: generate_rendered_complete)
    then show "Some (get_field ''registration_number'' s) = s ''registration_number''"
      by (auto simp: complete_def get_field_def)
  qed
  finally show ?thesis .
qed

section \<open>The claims\<close>

text \<open>
  Claim C8. In every document produced by \<open>generate_student_document\<close>, every run of every
  block (the title, the category, year and department headings, the header and data cells
  of every table, the three runs of every list paragraph) has the explicit colour black,
  and every heading has a run to carry it: no run is left to inherit the theme's colour.
\<close>

theorem every_run_black:
  assumes "generate_student_document students = Inr doc"
  shows "\<forall>b\<in>set (body doc).
           (\<forall>r\<in>set (block_runs b). run_color r = Some (RGBColor 0 0 0)) \<and>
           (is_heading b \<longrightarrow> block_runs b \<noteq> [])"
proof
  fix b assume "b \<in> set (body doc)"
  with assms have b: "b \<in> set (document_body students)"
    by (simp add: generate_body)
  from assms have err: "document_error students = None"
    by (rule generate_no_error)
  from b consider "b = title_heading"
    | c where "c \<in> set category_order" "b \<in> set (category_section_body students c)"
    by (auto simp: document_body_def)
  then have "explicit_black b"
  proof cases
    case 1
    then show ?thesis
      by (simp add: title_heading_def explicit_black_def black_run_def black_def)
  next
    case 2
    from err 2(1) have "category_section_error students c = None"
      by (simp add: document_error_def first_error_None_iff)
    then show ?thesis using 2(2) by (rule black_category_section)
  qed
  then show "(\<forall>r\<in>set (block_runs b). run_color r = Some (RGBColor 0 0 0)) \<and>
           (is_heading b \<longrightarrow> block_runs b \<noteq> [])"
    by (simp add: explicit_black_def)
qed

theorem every_run_black_witness:
  "\<exists>doc. generate_student_document
       [[''full_name'' \<mapsto> ''Asha'', ''registration_number'' \<mapsto> ''SEC23EC001'',
         ''department'' \<mapsto> ''ECE'', ''year'' \<mapsto> ''Third'', ''category'' \<mapsto> ''Hostel''],
        [''full_name'' \<mapsto> ''Ravi'', ''registration_number'' \<mapsto> ''SEC25CS002'',
         ''department'' \<mapsto> ''CSE'', ''year'' \<mapsto> ''First'']] = Inr doc \<and>
     length (body doc) = 7 \<and>
     (\<forall>b\<in>set (body doc).
        (\<forall>r\<in>set (block_runs b). run_color r = Some (RGBColor 0 0 0)) \<and>
        (is_heading b \<longrightarrow> block_runs b \<noteq> []))"
proof -
  have "\<exists>doc. generate_student_document
       [[''full_name'' \<mapsto> ''Asha'', ''registration_number'' \<mapsto> ''SEC23EC001'',
         ''department'' \<mapsto> ''ECE'', ''year'' \<mapsto> ''Third'', ''category'' \<mapsto> ''Hostel''],
        [''full_name'' \<mapsto> ''Ravi'', ''registration_number'' \<mapsto> ''SEC25CS002'',
         ''department'' \<mapsto> ''CSE'', ''year'' \<mapsto> ''First'']] = Inr doc \<and>
     length (body doc) = 7"
    by (simp add: eval_defs)
  then obtain doc where run: "generate_student_document
       [[''full_name'' \<mapsto> ''Asha'', ''registration_number'' \<mapsto> ''SEC23EC001'',
         ''department'' \<mapsto> ''ECE'', ''year'' \<mapsto> ''Third'', ''category'' \<mapsto> ''Hostel''],
        [''full_name'' \<mapsto> ''Ravi'', ''registration_number'' \<mapsto> ''SEC25CS002'',
         ''department'' \<mapsto> ''CSE'', ''year'' \<mapsto> ''First'']] = Inr doc"
    and len: "length (body doc) = 7"
    by blast
  from every_run_black [OF run] run len show ?thesis by blast
qed

text \<open>
  Claim C2, as the spec states it, fails: a record whose category value is a string other
  than Hostel, Dayscholar and Uncategorized is put into a bucket of its own (line 198 takes
  the default only when the key is absent), and the loop over \<open>category_order\<close> never
  visits that bucket, so the record is not rendered at all.
\<close>

theorem unrecognized_category_counterexample:
  "group_students (\<lambda>s. Inr (category_of s)) []
       [[''full_name'' \<mapsto> ''Ravi'', ''registration_number'' \<mapsto> ''SEC25CS002'',
         ''department'' \<mapsto> ''CSE'', ''year'' \<mapsto> ''First'', ''category'' \<mapsto> ''PG'']]
     = Inr [(''PG'',
         [[''full_name'' \<mapsto> ''Ravi'', ''registration_number'' \<mapsto> ''SEC25CS002'',
           ''department'' \<mapsto> ''CSE'', ''year'' \<mapsto> ''First'', ''category'' \<mapsto> ''PG'']])] \<and>
   generate_student_document
       [[''full_name'' \<mapsto> ''Ravi'', ''registration_number'' \<mapsto> ''SEC25CS002'',
         ''department'' \<mapsto> ''CSE'', ''year'' \<mapsto> ''First'', ''category'' \<mapsto> ''PG'']]
     = Inr \<lparr>font_name = ''Times New Roman'', font_size = 152400,
            body = [Heading 0 [\<lparr>run_text = ''VOLUNTEERS LIST'', run_bold = None,
                                run_color = Some (RGBColor 0 0 0)\<rparr>]]\<rparr>"
  by (simp add: eval_defs black_run_def black_def)

text \<open>
  Claim C2, amended. A record is placed in the Uncategorized bucket exactly when its
  category key is absent or its category value is the literal Uncategorized; the Hostel and
  Dayscholar buckets hold the records with these category values, and a record with any
  other category value is in none of the three buckets and is not rendered. In a produced
  document the title is followed by the Hostel section, the Dayscholar section and the
  Uncategorized section, each present only when its bucket is not empty; the Hostel and
  Dayscholar sections start with a level-1 heading bearing the category's name, the
  Uncategorized section has no heading, and these are the only level-1 headings.
\<close>

theorem category_buckets_and_headings:
  fixes students :: "student list"
  defines "hostel \<equiv> filter (\<lambda>s. s ''category'' = Some ''Hostel'') students"
    and "dayscholar \<equiv> filter (\<lambda>s. s ''category'' = Some ''Dayscholar'') students"
    and "uncategorized \<equiv>
           filter (\<lambda>s. s ''category'' = None \<or> s ''category'' = Some ''Uncategorized'') students"
  assumes run: "generate_student_document students = Inr doc"
  shows "(\<exists>categorized_students.
            group_students (\<lambda>s. Inr (category_of s)) [] students = Inr categorized_students \<and>
            map_of categorized_students ''Hostel'' =
              (if hostel = [] then None else Some hostel) \<and>
            map_of categorized_students ''Dayscholar'' =
              (if dayscholar = [] then None else Some dayscholar) \<and>
            map_of categorized_students ''Uncategorized'' =
              (if uncategorized = [] then None else Some uncategorized)) \<and>
         body doc =
           Heading 0 [black_run ''VOLUNTEERS LIST''] #
           (if hostel = [] then []
            else Heading 1 [black_run ''Hostel'']
                   # concat (map (year_section_body hostel) year_order)) @
           (if dayscholar = [] then []
            else Heading 1 [black_run ''Dayscholar'']
                   # concat (map (year_section_body dayscholar) year_order)) @
           (if uncategorized = [] then []
            else concat (map (year_section_body uncategorized) year_order)) \<and>
         headings_of_levels {1} (body doc) =
           (if hostel = [] then [] else [(1, ''Hostel'')]) @
           (if dayscholar = [] then [] else [(1, ''Dayscholar'')])"
proof -
  have buckets: "category_bucket students ''Hostel'' = hostel"
    "category_bucket students ''Dayscholar'' = dayscholar"
    "category_bucket students ''Uncategorized'' = uncategorized"
    by (simp_all add: category_bucket_def category_of_eq_iff hostel_def dayscholar_def
          uncategorized_def)
  have dict: "map_of (grouped category_of [] students) c =
      (if category_bucket students c = [] then None else Some (category_bucket students c))" for c
    by (simp add: map_of_grouped_empty category_bucket_def)
  have body: "body doc =
      Heading 0 [black_run ''VOLUNTEERS LIST''] #
           (if hostel = [] then []
            else Heading 1 [black_run ''Hostel'']
                   # concat (map (year_section_body hostel) year_order)) @
           (if dayscholar = [] then []
            else Heading 1 [black_run ''Dayscholar'']
                   # concat (map (year_section_body dayscholar) year_order)) @
           (if uncategorized = [] then []
            else concat (map (year_section_body uncategorized) year_order))"
    by (simp add: generate_body [OF run] document_body_def title_heading_def
          category_order_def category_section_body_def buckets category_content_body_def
          category_heading_def)
  have heads: "headings_of_levels {1} (body doc) =
           (if hostel = [] then [] else [(1, ''Hostel'')]) @
           (if dayscholar = [] then [] else [(1, ''Dayscholar'')])"
    unfolding body by (simp add: headings_year_sections black_run_def)
  from categorized_students_result [of students] dict buckets body heads
  show ?thesis by simp
qed

theorem category_buckets_and_headings_witness:
  "\<exists>doc. generate_student_document
       [[''full_name'' \<mapsto> ''Ravi'', ''registration_number'' \<mapsto> ''SEC25CS002'',
         ''department'' \<mapsto> ''CSE'', ''year'' \<mapsto> ''First''],
        [''full_name'' \<mapsto> ''Asha'', ''registration_number'' \<mapsto> ''SEC23EC001'',
         ''department'' \<mapsto> ''ECE'', ''year'' \<mapsto> ''Third'', ''category'' \<mapsto> ''Hostel'']]
       = Inr doc \<and>
     headings_of_levels {1} (body doc) = [(1, ''Hostel'')]"
proof -
  let ?input = "[[''full_name'' \<mapsto> ''Ravi'', ''registration_number'' \<mapsto> ''SEC25CS002'',
         ''department'' \<mapsto> ''CSE'', ''year'' \<mapsto> ''First''],
        [''full_name'' \<mapsto> ''Asha'', ''registration_number'' \<mapsto> ''SEC23EC001'',
         ''department'' \<mapsto> ''ECE'', ''year'' \<mapsto> ''Third'', ''category'' \<mapsto> ''Hostel'']]"
  have "\<exists>doc. generate_student_document ?input = Inr doc"
    by (simp add: eval_defs)
  then obtain doc where run: "generate_student_document ?input = Inr doc" ..
  from category_buckets_and_headings [OF run] run show ?thesis by auto
qed

text \<open>
  Claim C1, as the spec states it, fails: the schema allows the empty string as a year, and
  a record whose year is the empty string is put into a year bucket of that name, which the
  loop over \<open>year_order\<close> never visits. The record satisfies the schema invariants, a
  document is produced, and the registration number appears nowhere in it.
\<close>

theorem completeness_counterexample:
  "schema_invariants
     [''full_name'' \<mapsto> ''Ravi'', ''registration_number'' \<mapsto> ''SEC25CS002'',
      ''department'' \<mapsto> ''CSE'', ''year'' \<mapsto> []] \<and>
   generate_student_document
     [[''full_name'' \<mapsto> ''Ravi'', ''registration_number'' \<mapsto> ''SEC25CS002'',
       ''department'' \<mapsto> ''CSE'', ''year'' \<mapsto> []]]
     = Inr \<lparr>font_name = ''Times New Roman'', font_size = 152400,
            body = [Heading 0 [\<lparr>run_text = ''VOLUNTEERS LIST'', run_bold = None,
                                run_color = Some (RGBColor 0 0 0)\<rparr>]]\<rparr> \<and>
   rendered_registration_numbers
     [Heading 0 [\<lparr>run_text = ''VOLUNTEERS LIST'', run_bold = None,
                  run_color = Some (RGBColor 0 0 0)\<rparr>]] = []"
  by (simp add: eval_defs black_run_def black_def schema_invariants_def departments_def)

text \<open>
  Claim C1, amended. For every input list of student records satisfying the schema
  invariants on which a document is produced, the records whose year is not the empty
  string (that is, whose year is one of Fourth, Third, Second, First) appear exactly once
  each in the document, and no other record appears: the multiset of the registration
  numbers rendered in first-year table rows and senior list paragraphs equals the multiset
  of the registration numbers of those input records.
\<close>

theorem completeness_of_recognized_years:
  assumes schema: "\<forall>s\<in>set students. schema_invariants s"
    and run: "generate_student_document students = Inr doc"
  shows "mset (map Some (rendered_registration_numbers (body doc))) =
           mset (map (\<lambda>s. s ''registration_number'')
                  (filter (\<lambda>s. s ''year'' \<noteq> Some []) students))"
proof -
  have "filter (\<lambda>s. category_of s \<in> set category_order \<and>
           get_field ''year'' s \<in> set year_order) students =
        filter (\<lambda>s. s ''year'' \<noteq> Some []) students"
  proof (rule filter_cong [OF refl])
    fix s assume "s \<in> set students"
    with schema have "schema_invariants s" by blast
    then show "(category_of s \<in> set category_order \<and>
        get_field ''year'' s \<in> set year_order) = (s ''year'' \<noteq> Some [])"
      using schema_category [of s] schema_year [of s] by blast
  qed
  with mset_rendered_document_body [of students]
  have "mset (rendered_registration_numbers (body doc)) =
      image_mset (get_field ''registration_number'')
        (mset (filter (\<lambda>s. s ''year'' \<noteq> Some []) students))"
    unfolding generate_body [OF run] by (simp only:)
  then have "mset (map Some (rendered_registration_numbers (body doc))) =
      mset (map (\<lambda>s. Some (get_field ''registration_number'' s))
        (filter (\<lambda>s. s ''year'' \<noteq> Some []) students))"
    by (simp only: mset_map image_mset.compositionality comp_def)
  also have "map (\<lambda>s. Some (get_field ''registration_number'' s))
        (filter (\<lambda>s. s ''year'' \<noteq> Some []) students) =
      map (\<lambda>s. s ''registration_number'') (filter (\<lambda>s. s ''year'' \<noteq> Some []) students)"
  proof (rule map_cong [OF refl])
    fix s assume "s \<in> set (filter (\<lambda>s. s ''year'' \<noteq> Some []) students)"
    with schema have "schema_invariants s" by simp
    then show "Some (get_field ''registration_number'' s) = s ''registration_number''"
      by (rule schema_number)
  qed
  finally show ?thesis .
qed

theorem completeness_of_recognized_years_witness:
  "\<exists>doc. generate_student_document
       [[''full_name'' \<mapsto> ''Ravi'', ''registration_number'' \<mapsto> ''SEC25CS002'',
         ''department'' \<mapsto> ''CSE'', ''year'' \<mapsto> ''First''],
        [''full_name'' \<mapsto> ''Kavi'', ''registration_number'' \<mapsto> ''SEC00XX000'',
         ''department'' \<mapsto> [], ''year'' \<mapsto> []],
        [''full_name'' \<mapsto> ''Asha'', ''registration_number'' \<mapsto> ''SEC23EC001'',
         ''department'' \<mapsto> ''ECE'', ''year'' \<mapsto> ''Third'', ''category'' \<mapsto> ''Hostel'']]
       = Inr doc \<and>
     mset (map Some (rendered_registration_numbers (body doc))) =
       {#Some ''SEC25CS002'', Some ''SEC23EC001''#}"
proof -
  let ?a = "[''full_name'' \<mapsto> ''Ravi'', ''registration_number'' \<mapsto> ''SEC25CS002'',
         ''department'' \<mapsto> ''CSE'', ''year'' \<mapsto> ''First'']"
  let ?b = "[''full_name'' \<mapsto> ''Kavi'', ''registration_number'' \<mapsto> ''SEC00XX000'',
         ''department'' \<mapsto> [], ''year'' \<mapsto> []]"
  let ?c = "[''full_name'' \<mapsto> ''Asha'', ''registration_number'' \<mapsto> ''SEC23EC001'',
         ''department'' \<mapsto> ''ECE'', ''year'' \<mapsto> ''Third'', ''category'' \<mapsto> ''Hostel'']"
  have "\<exists>doc. generate_student_document [?a, ?b, ?c] = Inr doc"
    by (simp add: eval_defs)
  then obtain doc where run: "generate_student_document [?a, ?b, ?c] = Inr doc" ..
  have a: "schema_invariants ?a"
    by (simp add: schema_invariants_def departments_def year_order_def)
  have b: "schema_invariants ?b"
    by (simp add: schema_invariants_def departments_def year_order_def)
  have c: "schema_invariants ?c"
    by (simp add: schema_invariants_def departments_def year_order_def)
  from a b c have schema: "\<forall>s\<in>set [?a, ?b, ?c]. schema_invariants s"
    by simp
  have "mset (map (\<lambda>s. s ''registration_number'')
          (filter (\<lambda>s. s ''year'' \<noteq> Some []) [?a, ?b, ?c])) =
        {#Some ''SEC25CS002'', Some ''SEC23EC001''#}"
    by simp
  with completeness_of_recognized_years [OF schema run] run show ?thesis
    by (intro exI [of _ doc] conjI) (simp_all only:)
qed




text \<open>
  Claim C3. For every input on which a document is produced, the body of the document is the
  title followed by the Hostel section, the Dayscholar section and the Uncategorized section,
  in this order, a section being absent when its bucket is empty. A Hostel or Dayscholar
  section is its level-1 heading followed by its year sections; the Uncategorized section is
  its year sections alone. The year sections of a category (\<open>year_sections\<close>) are, in the order
  Fourth, Third, Second, First and skipping the years whose bucket within the category is
  empty, the level-2 heading \<open><Year> Year\<close> followed by the content of that year bucket. The
  content of a year bucket sits between its own heading and the next heading of level 1 or 2:
  it contains no title, category or year heading, and it renders exactly the registration
  numbers of the records of that bucket.
\<close>

theorem fixed_category_and_year_order:
  fixes students :: "student list"
  defines "hostel \<equiv> filter (\<lambda>s. s ''category'' = Some ''Hostel'') students"
    and "dayscholar \<equiv> filter (\<lambda>s. s ''category'' = Some ''Dayscholar'') students"
    and "uncategorized \<equiv>
           filter (\<lambda>s. s ''category'' = None \<or> s ''category'' = Some ''Uncategorized'') students"
  assumes run: "generate_student_document students = Inr doc"
  shows "\<exists>content.
           body doc =
             Heading 0 [\<lparr>run_text = ''VOLUNTEERS LIST'', run_bold = None,
                         run_color = Some (RGBColor 0 0 0)\<rparr>] #
             (if hostel = [] then []
              else Heading 1 [\<lparr>run_text = ''Hostel'', run_bold = None,
                               run_color = Some (RGBColor 0 0 0)\<rparr>]
                     # year_sections content hostel) @
             (if dayscholar = [] then []
              else Heading 1 [\<lparr>run_text = ''Dayscholar'', run_bold = None,
                               run_color = Some (RGBColor 0 0 0)\<rparr>]
                     # year_sections content dayscholar) @
             (if uncategorized = [] then [] else year_sections content uncategorized) \<and>
           (\<forall>bucket\<in>{hostel, dayscholar, uncategorized}.
              \<forall>year\<in>{''Fourth'', ''Third'', ''Second'', ''First''}.
                headings_of_levels {0, 1, 2}
                  (content year (filter (\<lambda>s. s ''year'' = Some year) bucket)) = [] \<and>
                mset (map Some (rendered_registration_numbers
                  (content year (filter (\<lambda>s. s ''year'' = Some year) bucket)))) =
                mset (map (\<lambda>s. s ''registration_number'')
                  (filter (\<lambda>s. s ''year'' = Some year) bucket)))"
proof -
  have buckets: "category_bucket students ''Hostel'' = hostel"
    "category_bucket students ''Dayscholar'' = dayscholar"
    "category_bucket students ''Uncategorized'' = uncategorized"
    by (simp_all add: category_bucket_def category_of_eq_iff hostel_def dayscholar_def
          uncategorized_def)
  have body: "body doc =
             Heading 0 [\<lparr>run_text = ''VOLUNTEERS LIST'', run_bold = None,
                         run_color = Some (RGBColor 0 0 0)\<rparr>] #
             (if hostel = [] then []
              else Heading 1 [\<lparr>run_text = ''Hostel'', run_bold = None,
                               run_color = Some (RGBColor 0 0 0)\<rparr>]
                     # year_sections year_content_body hostel) @
             (if dayscholar = [] then []
              else Heading 1 [\<lparr>run_text = ''Dayscholar'', run_bold = None,
                               run_color = Some (RGBColor 0 0 0)\<rparr>]
                     # year_sections year_content_body dayscholar) @
             (if uncategorized = [] then []
              else year_sections year_content_body uncategorized)"
    by (simp add: generate_body [OF run] document_body_def title_heading_def
          category_order_def category_section_body_def buckets category_content_body_def
          category_heading_def year_sections_body black_run_def black_def)
  have member: "s \<in> set students \<and> category_of s \<in> set category_order"
    if "bucket \<in> {hostel, dayscholar, uncategorized}" "s \<in> set bucket" for bucket s
    using that buckets [symmetric] by (auto simp: category_bucket_def category_order_def)
  have content: "headings_of_levels {0, 1, 2}
                  (year_content_body year (filter (\<lambda>s. s ''year'' = Some year) bucket)) = [] \<and>
                mset (map Some (rendered_registration_numbers
                  (year_content_body year (filter (\<lambda>s. s ''year'' = Some year) bucket)))) =
                mset (map (\<lambda>s. s ''registration_number'')
                  (filter (\<lambda>s. s ''year'' = Some year) bucket))"
    if b: "bucket \<in> {hostel, dayscholar, uncategorized}"
      and y: "year \<in> {''Fourth'', ''Third'', ''Second'', ''First''}" for bucket year
  proof
    show "headings_of_levels {0, 1, 2}
        (year_content_body year (filter (\<lambda>s. s ''year'' = Some year) bucket)) = []"
      by (rule headings_year_content) simp
    from y have "year \<in> set year_order" by (simp add: year_order_def)
    with run member [OF b]
    show "mset (map Some (rendered_registration_numbers
                  (year_content_body year (filter (\<lambda>s. s ''year'' = Some year) bucket)))) =
                mset (map (\<lambda>s. s ''registration_number'')
                  (filter (\<lambda>s. s ''year'' = Some year) bucket))"
      by (intro mset_rendered_year_bucket) blast+
  qed
  from body content show ?thesis
    by (intro exI [of _ year_content_body] conjI ballI) blast+
qed

theorem fixed_category_and_year_order_witness:
  "\<exists>doc content. generate_student_document
       [[''full_name'' \<mapsto> ''Ravi'', ''registration_number'' \<mapsto> ''SEC25CS002'',
         ''department'' \<mapsto> ''CSE'', ''year'' \<mapsto> ''First''],
        [''full_name'' \<mapsto> ''Asha'', ''registration_number'' \<mapsto> ''SEC23EC001'',
         ''department'' \<mapsto> ''ECE'', ''year'' \<mapsto> ''Third'', ''category'' \<mapsto> ''Hostel''],
        [''full_name'' \<mapsto> ''Mala'', ''registration_number'' \<mapsto> ''SEC22IT003'',
         ''department'' \<mapsto> ''IT'', ''year'' \<mapsto> ''Fourth'', ''category'' \<mapsto> ''Hostel'']]
       = Inr doc \<and>
     body doc =
       Heading 0 [\<lparr>run_text = ''VOLUNTEERS LIST'', run_bold = None,
                   run_color = Some (RGBColor 0 0 0)\<rparr>] #
       Heading 1 [\<lparr>run_text = ''Hostel'', run_bold = None,
                   run_color = Some (RGBColor 0 0 0)\<rparr>] #
       Heading 2 [\<lparr>run_text = ''Fourth Year'', run_bold = None,
                   run_color = Some (RGBColor 0 0 0)\<rparr>] #
       content ''Fourth''
         [[''full_name'' \<mapsto> ''Mala'', ''registration_number'' \<mapsto> ''SEC22IT003'',
           ''department'' \<mapsto> ''IT'', ''year'' \<mapsto> ''Fourth'', ''category'' \<mapsto> ''Hostel'']] @
       Heading 2 [\<lparr>run_text = ''Third Year'', run_bold = None,
                   run_color = Some (RGBColor 0 0 0)\<rparr>] #
       content ''Third''
         [[''full_name'' \<mapsto> ''Asha'', ''registration_number'' \<mapsto> ''SEC23EC001'',
           ''department'' \<mapsto> ''ECE'', ''year'' \<mapsto> ''Third'', ''category'' \<mapsto> ''Hostel'']] @
       Heading 2 [\<lparr>run_text = ''First Year'', run_bold = None,
                   run_color = Some (RGBColor 0 0 0)\<rparr>] #
       content ''First''
         [[''full_name'' \<mapsto> ''Ravi'', ''registration_number'' \<mapsto> ''SEC25CS002'',
           ''department'' \<mapsto> ''CSE'', ''year'' \<mapsto> ''First'']] \<and>
     mset (map Some (rendered_registration_numbers (content ''Third''
         [[''full_name'' \<mapsto> ''Asha'', ''registration_number'' \<mapsto> ''SEC23EC001'',
           ''department'' \<mapsto> ''ECE'', ''year'' \<mapsto> ''Third'', ''category'' \<mapsto> ''Hostel'']]))) =
       {#Some ''SEC23EC001''#}"
proof -
  let ?ravi = "[''full_name'' \<mapsto> ''Ravi'', ''registration_number'' \<mapsto> ''SEC25CS002'',
         ''department'' \<mapsto> ''CSE'', ''year'' \<mapsto> ''First'']"
  let ?asha = "[''full_name'' \<mapsto> ''Asha'', ''registration_number'' \<mapsto> ''SEC23EC001'',
         ''department'' \<mapsto> ''ECE'', ''year'' \<mapsto> ''Third'', ''category'' \<mapsto> ''Hostel'']"
  let ?mala = "[''full_name'' \<mapsto> ''Mala'', ''registration_number'' \<mapsto> ''SEC22IT003'',
         ''department'' \<mapsto> ''IT'', ''year'' \<mapsto> ''Fourth'', ''category'' \<mapsto> ''Hostel'']"
  have "\<exists>doc. generate_student_document [?ravi, ?asha, ?mala] = Inr doc"
    by (simp add: eval_defs)
  then obtain doc where run: "generate_student_document [?ravi, ?asha, ?mala] = Inr doc" ..
  from fixed_category_and_year_order [OF run] run show ?thesis
    by (simp add: year_sections_def) blast
qed

end
